theory Spec2Isabelle
  imports Complex_Main "HOL-Library.Product_Lexorder"
begin

section \<open>Translation orchestration of BlumeMangaTranslator\<close>

text \<open>
  A shallow embedding of the translation layer: \<^verbatim>\<open>translator/base.py\<close> (containers and
  failover), \<^verbatim>\<open>translator/service.py\<close> (batching, rate-limit retry, block translation),
  \<^verbatim>\<open>translator/rate_limiter.py\<close> (slow mode) and \<^verbatim>\<open>knowledge/context_manager.py\<close>.

  Conventions. Python \<^verbatim>\<open>float\<close> timestamps and delays are idealised as \<^typ>\<open>real\<close>;
  Python \<^verbatim>\<open>int\<close> is \<^typ>\<open>int\<close>. Every call of \<^verbatim>\<open>time.monotonic()\<close> is
  an explicit input: a method that reads the clock takes the value read as an argument, and
  a composite operation takes the whole clock \<open>clk\<close>, where \<open>clk k\<close> is the value
  returned by the \<open>k\<close>-th read, together with a counter of the reads made so far.
  Exceptions are values of the type \<open>exn\<close>; a function that may raise returns
  \<open>exn + 'a\<close> with \<open>Inl\<close> for the raised exception. A Python \<^verbatim>\<open>str\<close> is a
  \<^typ>\<open>string\<close>, one \<^typ>\<open>char\<close> standing for one code point, so that \<^const>\<open>length\<close> is
  \<^verbatim>\<open>len\<close>; no operation below looks inside a character.
\<close>

subsection \<open>Exceptions\<close>

text \<open>
  \<^verbatim>\<open>LimitedModeError(status_code, message)\<close> and \<^verbatim>\<open>TranslationError(message)\<close> both derive
  from \<^verbatim>\<open>Exception\<close> directly. \<^verbatim>\<open>raise TranslationError(str(exc)) from exc\<close> records
  \<open>exc\<close> as the cause. Every other exception class is \<open>OtherException\<close>, apart from
  the \<^verbatim>\<open>ValueError\<close> that the rate limiter raises itself.
\<close>

datatype exn =
    LimitedModeError "int option" string
  | TranslationError string "exn option"
  | ValueError string
  | OtherException string

fun exn_str :: "exn \<Rightarrow> string" where
  "exn_str (LimitedModeError status msg) = msg"
| "exn_str (TranslationError msg cause) = msg"
| "exn_str (ValueError msg) = msg"
| "exn_str (OtherException msg) = msg"

subsection \<open>Data model of \<^verbatim>\<open>translator/base.py\<close>\<close>

record capabilities =
  supports_batch :: bool
  max_batch_size :: int
  max_chars_per_request :: "int option"
  max_chars_total :: "int option"
  context_window :: int
  attempt_delay_ms :: int

record context_entry =
  original :: string
  translated :: string

text \<open>
  A \<^verbatim>\<open>TranslationRequest\<close>. The field \<^verbatim>\<open>text\<close> is called \<open>req_text\<close>; the prompt
  payload, a dictionary that only the engines read, is left out; the metadata dictionary is
  an association list.
\<close>

record request =
  req_text :: string
  src_lang :: string
  dst_lang :: string
  req_context :: "context_entry list"
  metadata :: "(string \<times> string) list"

text \<open>
  A \<^verbatim>\<open>TranslationResult\<close>, without the raw engine response. Its field
  \<^verbatim>\<open>translated_text\<close> is called \<open>result_text\<close>, the name being kept for the text blocks.
\<close>

record result =
  result_text :: string
  result_metadata :: "(string \<times> string) list"

text \<open>A \<^verbatim>\<open>TranslatorContainer\<close>, without its free-form \<^verbatim>\<open>extra\<close> dictionary.\<close>

record container =
  name :: string
  is_primary :: bool
  block_timeout_sec :: real
  max_failures :: int
  fail_uses :: int
  blocked_until :: "real option"
  last_used_at :: real

text \<open>\<^verbatim>\<open>is_blocked\<close>: \<open>now\<close> is the value of the single clock read.\<close>

definition is_blocked :: "real \<Rightarrow> container \<Rightarrow> bool" where
  "is_blocked now c = (case blocked_until c of None \<Rightarrow> False | Some b \<Rightarrow> b > now)"

definition mark_success :: "real \<Rightarrow> container \<Rightarrow> container" where
  "mark_success now c = c\<lparr>fail_uses := 0, blocked_until := None, last_used_at := now\<rparr>"

text \<open>
  \<^verbatim>\<open>mark_failure\<close> reads the clock once for \<^verbatim>\<open>last_used_at\<close> (\<open>t1\<close>) and, when the
  limit is reached, a second time for \<^verbatim>\<open>blocked_until\<close> (\<open>t2\<close>).
\<close>

definition mark_failure :: "real \<Rightarrow> real \<Rightarrow> container \<Rightarrow> container" where
  "mark_failure t1 t2 c =
     (let c1 = c\<lparr>fail_uses := fail_uses c + 1, last_used_at := t1\<rparr>
      in if fail_uses c1 \<ge> max_failures c1
         then c1\<lparr>blocked_until := Some (t2 + block_timeout_sec c1)\<rparr>
         else c1)"

definition restore :: "container \<Rightarrow> container" where
  "restore c = c\<lparr>fail_uses := 0, blocked_until := None\<rparr>"

subsection \<open>Batch splitting (\<^verbatim>\<open>TranslationService._split_into_batches\<close>)\<close>

text \<open>
  The loop over the requests, with the local variables \<^verbatim>\<open>batches\<close>, \<^verbatim>\<open>current\<close> and
  \<^verbatim>\<open>current_chars\<close> as arguments. \<^verbatim>\<open>len(req.text or "")\<close> is the length of the text.
\<close>

fun split_loop ::
  "int \<Rightarrow> int option \<Rightarrow> request list list \<Rightarrow> request list \<Rightarrow> int \<Rightarrow> request list
     \<Rightarrow> request list list \<times> request list" where
  "split_loop max_batch max_chars batches current current_chars [] = (batches, current)"
| "split_loop max_batch max_chars batches current current_chars (req # reqs) =
     (let req_len = int (length (req_text req));
          fits_count = int (length current) < max_batch;
          fits_chars = (case max_chars of None \<Rightarrow> True
                        | Some m \<Rightarrow> current_chars + req_len \<le> m)
      in if current \<noteq> [] \<and> (\<not> fits_count \<or> \<not> fits_chars)
         then split_loop max_batch max_chars (batches @ [current]) ([] @ [req]) (0 + req_len) reqs
         else split_loop max_batch max_chars batches (current @ [req])
                (current_chars + req_len) reqs)"

definition split_into_batches :: "capabilities \<Rightarrow> request list \<Rightarrow> request list list" where
  "split_into_batches caps requests =
     (if \<not> supports_batch caps then map (\<lambda>req. [req]) requests
      else
        let max_batch = max 1 (if max_batch_size caps = 0 then 1 else max_batch_size caps);
            max_chars = max_chars_per_request caps;
            (batches, current) = split_loop max_batch max_chars [] [] 0 requests
        in if current \<noteq> [] then batches @ [current] else batches)"

text \<open>\<^verbatim>\<open>sum(len(r.text) for r in batch)\<close>, the quantity the character limit is about.\<close>

definition batch_chars :: "request list \<Rightarrow> int" where
  "batch_chars b = sum_list (map (\<lambda>r. int (length (req_text r))) b)"

text \<open>
  What holds of a closed batch: it is not empty, it has at most \<open>max_batch\<close> requests,
  and it respects the character limit unless it is a single request.
\<close>

definition batch_ok :: "int \<Rightarrow> int option \<Rightarrow> request list \<Rightarrow> bool" where
  "batch_ok max_batch max_chars b \<longleftrightarrow>
     b \<noteq> [] \<and> int (length b) \<le> max_batch \<and>
     (case max_chars of None \<Rightarrow> True | Some m \<Rightarrow> batch_chars b \<le> m \<or> length b = 1)"

subsection \<open>Context history (\<^verbatim>\<open>knowledge/context_manager.py\<close>)\<close>

record context_manager =
  max_length :: int
  history :: "context_entry list"

text \<open>
  The Python slice \<^verbatim>\<open>xs[start:]\<close>: a negative \<open>start\<close> counts from the end and is
  clamped at 0, a non-negative one is clamped at the length.
\<close>

definition py_slice_from :: "int \<Rightarrow> 'a list \<Rightarrow> 'a list" where
  "py_slice_from start xs =
     (let n = int (length xs);
          s = (if start < 0 then max (start + n) 0 else min start n)
      in drop (nat s) xs)"

definition add_segment :: "string \<Rightarrow> string \<Rightarrow> context_manager \<Rightarrow> context_manager" where
  "add_segment orig_text trans_text cm =
     (let h = history cm @ [\<lparr>original = orig_text, translated = trans_text\<rparr>]
      in if int (length h) > max_length cm
         then cm\<lparr>history := py_slice_from (- max_length cm) h\<rparr>
         else cm\<lparr>history := h\<rparr>)"

text \<open>\<^verbatim>\<open>self._history[-limit:].copy()\<close>; the copy is the returned value itself.\<close>

definition get_recent_context :: "int \<Rightarrow> context_manager \<Rightarrow> context_entry list" where
  "get_recent_context limit cm = py_slice_from (- limit) (history cm)"

definition clear :: "context_manager \<Rightarrow> context_manager" where
  "clear cm = cm\<lparr>history := []\<rparr>"

subsection \<open>Failover over containers (\<^verbatim>\<open>Translator\<close>)\<close>

text \<open>
  A translator owns a list of containers; a container object is identified by its position
  in that list, so a variable of type \<^verbatim>\<open>Optional[TranslatorContainer]\<close> is a
  \<^typ>\<open>nat option\<close>. The constructor replaces an empty list by a single primary container,
  so the list is never empty. The state also counts the clock reads made so far and records
  the observable effects: the calls of the concrete engine (with the container used) and
  the calls of \<^verbatim>\<open>time.sleep\<close>.
\<close>

datatype event = EngineCall nat | Slept real

record translator_state =
  containers :: "container list"
  clock_reads :: nat
  effects :: "event list"

fun is_engine_call :: "event \<Rightarrow> bool" where
  "is_engine_call (EngineCall i) = True"
| "is_engine_call (Slept d) = False"

definition engine_calls :: "event list \<Rightarrow> nat" where
  "engine_calls es = length (filter is_engine_call es)"

text \<open>
  The concrete engine \<^verbatim>\<open>_translate_request(request, container)\<close> is outside this layer:
  \<open>eng k req c\<close> is what the call returns or raises when \<open>k\<close> engine calls have been
  made before it.
\<close>

type_synonym engine = "nat \<Rightarrow> request \<Rightarrow> container \<Rightarrow> exn + result"

definition primary_container :: "container list \<Rightarrow> nat option" where
  "primary_container cs =
     (case find (\<lambda>i. is_primary (cs ! i)) [0..<length cs] of
        Some i \<Rightarrow> Some i
      | None \<Rightarrow> (if cs \<noteq> [] then Some 0 else None))"

text \<open>
  \<^verbatim>\<open>_get_container\<close>. The list comprehension reads \<^verbatim>\<open>is_blocked\<close>, hence the clock,
  once per container in order; \<^verbatim>\<open>sorted\<close> is stable, as \<^const>\<open>sort_key\<close> is, and the key
  \<^verbatim>\<open>(c is last_used, c.last_used_at)\<close> is ordered lexicographically with
  \<open>False < True\<close>.
\<close>

definition get_container ::
  "(nat \<Rightarrow> real) \<Rightarrow> bool \<Rightarrow> nat option \<Rightarrow> translator_state \<Rightarrow> nat option \<times> translator_state" where
  "get_container clk prefer_primary last_used s =
     (let cs = containers s;
          t = clock_reads s;
          available = filter (\<lambda>i. \<not> is_blocked (clk (t + i)) (cs ! i)) [0..<length cs];
          t1 = t + length cs;
          (cs1, available1) =
            (if available = [] \<and> prefer_primary
             then (case primary_container cs of
                     Some p \<Rightarrow> (cs[p := restore (cs ! p)], [p])
                   | None \<Rightarrow> (cs, available))
             else (cs, available))
      in if available1 = [] then (None, s\<lparr>containers := cs1, clock_reads := t1\<rparr>)
         else
           let chosen = hd (sort_key (\<lambda>i. (last_used = Some i, last_used_at (cs1 ! i))) available1)
           in (Some chosen,
               s\<lparr>containers := cs1[chosen := (cs1 ! chosen)\<lparr>last_used_at := clk t1\<rparr>],
                 clock_reads := Suc t1\<rparr>))"

text \<open>\<^verbatim>\<open>container.mark_success()\<close> and \<^verbatim>\<open>container.mark_failure()\<close> on container \<open>i\<close>.\<close>

definition container_mark_success :: "(nat \<Rightarrow> real) \<Rightarrow> nat \<Rightarrow> translator_state \<Rightarrow> translator_state" where
  "container_mark_success clk i s =
     s\<lparr>containers := (containers s)[i := mark_success (clk (clock_reads s)) (containers s ! i)],
       clock_reads := Suc (clock_reads s)\<rparr>"

definition container_mark_failure :: "(nat \<Rightarrow> real) \<Rightarrow> nat \<Rightarrow> translator_state \<Rightarrow> translator_state" where
  "container_mark_failure clk i s =
     (let t = clock_reads s;
          c = mark_failure (clk t) (clk (Suc t)) (containers s ! i)
      in s\<lparr>containers := (containers s)[i := c],
           clock_reads := (if fail_uses c \<ge> max_failures c then t + 2 else t + 1)\<rparr>)"

text \<open>The two \<^verbatim>\<open>raise\<close> statements after the loop.\<close>

definition failover_exit :: "exn option \<Rightarrow> translator_state \<Rightarrow> (exn + result) \<times> translator_state" where
  "failover_exit last_error s =
     (case last_error of
        Some e \<Rightarrow> (Inl (TranslationError (exn_str e) (Some e)), s)
      | None \<Rightarrow> (Inl (TranslationError ''No available translator containers'' None), s))"

text \<open>
  The \<^verbatim>\<open>while attempts < max_attempts\<close> loop of \<^verbatim>\<open>_translate_with_failover\<close>, with the
  local variables \<^verbatim>\<open>attempts\<close>, \<^verbatim>\<open>container\<close> and \<^verbatim>\<open>last_error\<close> as arguments. The
  \<^verbatim>\<open>except\<close> clauses are tried in the order of the source: \<^verbatim>\<open>LimitedModeError\<close>,
  \<^verbatim>\<open>TranslationError\<close>, then any other \<^verbatim>\<open>Exception\<close>.
\<close>

function failover_loop ::
  "(nat \<Rightarrow> real) \<Rightarrow> engine \<Rightarrow> capabilities \<Rightarrow> request \<Rightarrow> int \<Rightarrow> int \<Rightarrow> nat option \<Rightarrow> exn option
     \<Rightarrow> translator_state \<Rightarrow> (exn + result) \<times> translator_state" where
  "failover_loop clk eng caps req attempts max_attempts container last_error s =
     (if attempts < max_attempts then
        (case container of
           None \<Rightarrow> failover_exit last_error s
         | Some i \<Rightarrow>
            (let s1 = s\<lparr>effects := effects s @ [EngineCall i]\<rparr>
             in case eng (engine_calls (effects s)) req (containers s ! i) of
                  Inr res \<Rightarrow> (Inr res, container_mark_success clk i s1)
                | Inl exc \<Rightarrow>
                   (case exc of
                      LimitedModeError status msg \<Rightarrow>
                        (Inl exc, container_mark_failure clk i s1)
                    | TranslationError msg cause \<Rightarrow>
                        (let s2 = container_mark_failure clk i s1;
                             (container', s3) = get_container clk False (Some i) s2;
                             s4 = (if attempt_delay_ms caps > 0
                                   then s3\<lparr>effects := effects s3 @
                                          [Slept (real_of_int (attempt_delay_ms caps) / 1000)]\<rparr>
                                   else s3)
                         in failover_loop clk eng caps req (attempts + 1) max_attempts
                              container' (Some exc) s4)
                    | ValueError msg \<Rightarrow>
                        (Inl (TranslationError (exn_str exc) (Some exc)),
                         container_mark_failure clk i s1)
                    | OtherException msg \<Rightarrow>
                        (Inl (TranslationError (exn_str exc) (Some exc)),
                         container_mark_failure clk i s1))))
      else failover_exit last_error s)"
  by pat_completeness auto
termination
  by (relation "measure (\<lambda>(clk, eng, caps, req, attempts, max_attempts, container, last_error, s).
        nat (max_attempts - attempts))") auto

text \<open>
  The state change of the \<^verbatim>\<open>except TranslationError\<close> branch taken on container \<open>i\<close>:
  the engine call is recorded, the container is marked failed, the next container is
  selected with \<^verbatim>\<open>prefer_primary=False\<close>, and the attempt delay is slept.
\<close>

definition after_failure ::
  "(nat \<Rightarrow> real) \<Rightarrow> capabilities \<Rightarrow> nat \<Rightarrow> translator_state \<Rightarrow> nat option \<times> translator_state" where
  "after_failure clk caps i s =
     (let s2 = container_mark_failure clk i (s\<lparr>effects := effects s @ [EngineCall i]\<rparr>);
          (container', s3) = get_container clk False (Some i) s2
      in (container',
          if attempt_delay_ms caps > 0
          then s3\<lparr>effects := effects s3 @ [Slept (real_of_int (attempt_delay_ms caps) / 1000)]\<rparr>
          else s3))"

definition translate_with_failover ::
  "(nat \<Rightarrow> real) \<Rightarrow> engine \<Rightarrow> capabilities \<Rightarrow> request \<Rightarrow> translator_state
     \<Rightarrow> (exn + result) \<times> translator_state" where
  "translate_with_failover clk eng caps req s =
     (let (container, s1) = get_container clk True None s;
          max_attempts = max (int (length (containers s1))) 1 * 2
      in failover_loop clk eng caps req 0 max_attempts container None s1)"

subsection \<open>Rate limiting and slow mode (\<^verbatim>\<open>translator/rate_limiter.py\<close>)\<close>

text \<open>
  The field \<^verbatim>\<open>max_chars_per_request\<close> of \<^verbatim>\<open>RateLimitConfig\<close> is called
  \<open>limit_chars_per_request\<close> here, the name being taken by the capabilities.
\<close>

record rate_limit_config =
  min_interval_sec :: real
  max_calls_per_min :: int
  limit_chars_per_request :: int

record backoff_state =
  penalty_delay_sec :: real
  last_error_ts :: real
  slow_mode :: bool
  slow_since :: real
  notified :: bool

record rate_limiter =
  cfg :: rate_limit_config
  last_call_ts :: real
  window_start_ts :: real
  window_calls :: int

text \<open>
  \<^verbatim>\<open>RateLimiter.wait_or_raise(text_length, backoff)\<close>. \<open>clk t\<close> is the first clock read
  of the call. The call raises, or returns the limiter, the backoff state, the durations
  slept in order, and the index of the next clock read. A float is true when it is not 0.
\<close>

definition wait_or_raise ::
  "(nat \<Rightarrow> real) \<Rightarrow> nat \<Rightarrow> int \<Rightarrow> backoff_state option \<Rightarrow> rate_limiter
     \<Rightarrow> exn + (rate_limiter \<times> backoff_state option \<times> real list \<times> nat)" where
  "wait_or_raise clk t text_length backoff limiter =
     (if text_length > limit_chars_per_request (cfg limiter)
      then Inl (ValueError ''Text too long for limited mode'')
      else
        let now = clk t;
            slow_mode0 = (case backoff of None \<Rightarrow> False | Some b \<Rightarrow> slow_mode b);
            expired = (case backoff of
                         None \<Rightarrow> False
                       | Some b \<Rightarrow> slow_mode b \<and> last_error_ts b \<noteq> 0
                                    \<and> now - last_error_ts b > 300);
            backoff1 = (if expired
                        then map_option (\<lambda>b. b\<lparr>slow_mode := False, penalty_delay_sec := 0,
                                                 slow_since := 0, notified := False\<rparr>) backoff
                        else backoff);
            slow_mode1 = (if expired then False else slow_mode0)
        in if \<not> slow_mode1 then Inr (limiter\<lparr>last_call_ts := now\<rparr>, backoff1, [], Suc t)
           else
             let (limiter1, now1, sleeps1, t1) =
                   (if max_calls_per_min (cfg limiter) > 0 then
                      if window_start_ts limiter \<le> 0 \<or> now - window_start_ts limiter \<ge> 60
                      then (limiter\<lparr>window_start_ts := now, window_calls := 0\<rparr>, now, [], Suc t)
                      else if window_calls limiter \<ge> max_calls_per_min (cfg limiter) then
                        let wait_for = max 0 (60 - (now - window_start_ts limiter));
                            (now', sleeps', t') =
                              (if wait_for > 0 then (clk (Suc t), [wait_for], Suc (Suc t))
                               else (now, [], Suc t))
                        in (limiter\<lparr>window_start_ts := clk t', window_calls := 0\<rparr>,
                            now', sleeps', Suc t')
                      else (limiter, now, [], Suc t)
                    else (limiter, now, [], Suc t));
                 since_last = now1 - last_call_ts limiter1;
                 sleeps2 = (if since_last < min_interval_sec (cfg limiter1)
                            then sleeps1 @ [min_interval_sec (cfg limiter1) - since_last]
                            else sleeps1);
                 sleeps3 = (case backoff1 of
                              None \<Rightarrow> sleeps2
                            | Some b \<Rightarrow> if penalty_delay_sec b > 0
                                        then sleeps2 @ [penalty_delay_sec b] else sleeps2)
             in Inr (limiter1\<lparr>last_call_ts := clk t1, window_calls := window_calls limiter1 + 1\<rparr>,
                     backoff1, sleeps3, Suc t1))"

text \<open>The module-level table \<^verbatim>\<open>_BACKOFFS\<close> and its accessors.\<close>

type_synonym backoffs = "string \<rightharpoonup> backoff_state"

definition default_backoff :: backoff_state where
  "default_backoff =
     \<lparr>penalty_delay_sec = 0, last_error_ts = 0, slow_mode = False, slow_since = 0,
      notified = False\<rparr>"

definition get_backoff_state :: "string \<Rightarrow> backoffs \<Rightarrow> backoff_state \<times> backoffs" where
  "get_backoff_state engine_id table =
     (case table engine_id of
        None \<Rightarrow> (default_backoff, table(engine_id \<mapsto> default_backoff))
      | Some b \<Rightarrow> (b, table))"

text \<open>\<^verbatim>\<open>activate_slow_mode(engine_id, reason)\<close>; \<open>now\<close> is its clock read.\<close>

definition activate_slow_mode :: "real \<Rightarrow> string \<Rightarrow> backoffs \<Rightarrow> backoffs" where
  "activate_slow_mode now engine_id table =
     (let (state, table1) = get_backoff_state engine_id table;
          was_slow = slow_mode state
      in table1(engine_id \<mapsto>
           state\<lparr>last_error_ts := now,
                 slow_since := (if slow_since state \<noteq> 0 then slow_since state else now),
                 slow_mode := True,
                 notified := (if \<not> was_slow then False else notified state),
                 penalty_delay_sec := min (max (penalty_delay_sec state) 2) 30\<rparr>))"


subsection \<open>The translation service (\<^verbatim>\<open>translator/service.py\<close>)\<close>

text \<open>
  The service state: the table \<^verbatim>\<open>_BACKOFFS\<close>, the context manager, the number of clock
  reads made so far, and the observable effects in order. A wrapped call \<^verbatim>\<open>fn\<close> is a
  pair of a label, recorded at each invocation, and its behaviour: \<open>snd fn k s\<close> is what
  the call returns or raises, and the state it leaves, when invoked in state \<open>s\<close> after
  \<open>k\<close> earlier invocations. The call can change the backoff table, the context and the
  clock, not the record of effects. The callback registered with
  \<^verbatim>\<open>set_rate_limit_callback\<close> is optional; \<open>cb engine_id s\<close> is the exception it raises, if
  it raises one, and the state it leaves.
\<close>

datatype 'l service_event = FnCall 'l | CallbackCall string | Sleep real

record 'l service_state =
  backoff_table :: backoffs
  ctx_manager :: context_manager
  service_reads :: nat
  service_effects :: "'l service_event list"

type_synonym ('l, 'a) thunk =
  "'l \<times> (nat \<Rightarrow> 'l service_state \<Rightarrow> (exn + 'a) \<times> 'l service_state)"

type_synonym 'l callback =
  "(string \<Rightarrow> 'l service_state \<Rightarrow> exn option \<times> 'l service_state) option"

fun is_fn_call :: "'l service_event \<Rightarrow> bool" where
  "is_fn_call (FnCall l) = True"
| "is_fn_call (CallbackCall e) = False"
| "is_fn_call (Sleep d) = False"

definition fn_calls :: "'l service_event list \<Rightarrow> nat" where
  "fn_calls es = length (filter is_fn_call es)"

text \<open>\<^verbatim>\<open>fn()\<close>.\<close>

definition invoke :: "('l, 'a) thunk \<Rightarrow> 'l service_state \<Rightarrow> (exn + 'a) \<times> 'l service_state" where
  "invoke fn s =
     (let (out, s1) = snd fn (fn_calls (service_effects s)) s
      in (out, s1\<lparr>service_effects := service_effects s @ [FnCall (fst fn)]\<rparr>))"

text \<open>The statements of the \<^verbatim>\<open>except LimitedModeError\<close> block before the retry.\<close>

definition service_activate_slow_mode ::
  "(nat \<Rightarrow> real) \<Rightarrow> string \<Rightarrow> 'l service_state \<Rightarrow> 'l service_state" where
  "service_activate_slow_mode clk engine_id s =
     s\<lparr>backoff_table := activate_slow_mode (clk (service_reads s)) engine_id (backoff_table s),
       service_reads := Suc (service_reads s)\<rparr>"

text \<open>
  \<^verbatim>\<open>if self._rate_limit_callback: self._rate_limit_callback(engine_id)\<close>. The call is not
  guarded: the result says whether the callback raised.
\<close>

definition notify_rate_limit ::
  "'l callback \<Rightarrow> string \<Rightarrow> 'l service_state \<Rightarrow> exn option \<times> 'l service_state" where
  "notify_rate_limit callback engine_id s =
     (case callback of
        None \<Rightarrow> (None, s)
      | Some cb \<Rightarrow>
          (let (raised, s1) = cb engine_id s
           in (raised, s1\<lparr>service_effects := service_effects s @ [CallbackCall engine_id]\<rparr>)))"

definition backoff_sleep :: "string \<Rightarrow> 'l service_state \<Rightarrow> 'l service_state" where
  "backoff_sleep engine_id s =
     (let (state, table) = get_backoff_state engine_id (backoff_table s);
          wait_for = max (penalty_delay_sec state) (3 / 2)
      in s\<lparr>backoff_table := table, service_effects := service_effects s @ [Sleep wait_for]\<rparr>)"

text \<open>\<^verbatim>\<open>TranslationService._run_with_rate_limit_retry(engine_id, fn)\<close>.\<close>

definition run_with_rate_limit_retry ::
  "(nat \<Rightarrow> real) \<Rightarrow> 'l callback \<Rightarrow> string \<Rightarrow> ('l, 'a) thunk \<Rightarrow> 'l service_state
     \<Rightarrow> (exn + 'a) \<times> 'l service_state" where
  "run_with_rate_limit_retry clk callback engine_id fn s =
     (let (out, s1) = invoke fn s
      in case out of
           Inr r \<Rightarrow> (out, s1)
         | Inl exc \<Rightarrow>
            (case exc of
               LimitedModeError status msg \<Rightarrow>
                 (let s2 = service_activate_slow_mode clk engine_id s1;
                      (raised, s3) = notify_rate_limit callback engine_id s2
                  in case raised of
                       Some callback_exc \<Rightarrow> (Inl callback_exc, s3)
                     | None \<Rightarrow>
                        (let s4 = backoff_sleep engine_id s3;
                             (out2, s5) = invoke fn s4
                         in case out2 of
                              Inr r2 \<Rightarrow> (out2, s5)
                            | Inl exc2 \<Rightarrow>
                               (case exc2 of
                                  LimitedModeError status2 msg2 \<Rightarrow>
                                    (Inl (TranslationError (exn_str exc2) (Some exc2)), s5)
                                | _ \<Rightarrow> (out2, s5))))
             | _ \<Rightarrow> (out, s1)))"

text \<open>
  The state in which the retry is made, after a first invocation that left \<open>s1\<close> and a
  callback that returned.
\<close>

definition before_retry ::
  "(nat \<Rightarrow> real) \<Rightarrow> 'l callback \<Rightarrow> string \<Rightarrow> 'l service_state \<Rightarrow> 'l service_state" where
  "before_retry clk callback engine_id s1 =
     backoff_sleep engine_id
       (snd (notify_rate_limit callback engine_id
               (service_activate_slow_mode clk engine_id s1)))"

subsection \<open>Translating text blocks (\<^verbatim>\<open>TranslationService.translate_blocks\<close>)\<close>

text \<open>A \<^verbatim>\<open>TextBlock\<close>; its field \<^verbatim>\<open>id\<close> is called \<open>block_id\<close>.\<close>

record text_block =
  block_id :: string
  bbox :: "int \<times> int \<times> int \<times> int"
  original_text :: string
  translated_text :: string
  block_type :: string
  enabled :: bool
  orientation :: string
  confidence :: real
  deleted :: bool
  manual :: bool
  font_size :: "int option"

text \<open>
  \<^verbatim>\<open>str.strip()\<close> removes leading and trailing whitespace. Which characters are
  whitespace is decided by the Python runtime (\<^verbatim>\<open>str.isspace\<close>), a parameter here.
\<close>

definition py_strip :: "(char \<Rightarrow> bool) \<Rightarrow> string \<Rightarrow> string" where
  "py_strip isspace txt = rev (dropWhile isspace (rev (dropWhile isspace txt)))"

text \<open>
  The first loop of \<^verbatim>\<open>translate_blocks\<close>, over the blocks from position \<open>j\<close> on: a
  block without text gets an empty translation and no request; any other block gets a
  request, paired with the position of the block. The context manager is not changed in
  this loop.
\<close>

fun build_request_pairs ::
  "(char \<Rightarrow> bool) \<Rightarrow> string \<Rightarrow> string \<Rightarrow> context_manager \<Rightarrow> int \<Rightarrow> nat \<Rightarrow> text_block list
     \<Rightarrow> text_block list \<times> (nat \<times> request) list" where
  "build_request_pairs isspace src dst cm context_limit j [] = ([], [])"
| "build_request_pairs isspace src dst cm context_limit j (block # blocks) =
     (let txt = original_text block;
          (blocks1, request_pairs) =
             build_request_pairs isspace src dst cm context_limit (Suc j) blocks
      in if py_strip isspace txt = []
         then (block\<lparr>translated_text := []\<rparr> # blocks1, request_pairs)
         else (block # blocks1,
               (j, \<lparr>req_text = txt, src_lang = src, dst_lang = dst,
                     req_context = get_recent_context context_limit cm,
                     metadata = [(''block_id'', block_id block),
                                 (''block_type'', block_type block)]\<rparr>) # request_pairs))"

text \<open>
  The loop over the batches. \<open>translate_batch b\<close> is the behaviour of
  \<^verbatim>\<open>translator.translate_batch(b)\<close>; the wrapped call is labelled with the batch.
\<close>

fun run_batches ::
  "(nat \<Rightarrow> real) \<Rightarrow> (request list) callback \<Rightarrow> string
     \<Rightarrow> (request list \<Rightarrow> nat \<Rightarrow> (request list) service_state
          \<Rightarrow> (exn + result list) \<times> (request list) service_state)
     \<Rightarrow> request list list \<Rightarrow> (request list) service_state
     \<Rightarrow> (exn + result list) \<times> (request list) service_state" where
  "run_batches clk callback engine_id translate_batch [] s = (Inr [], s)"
| "run_batches clk callback engine_id translate_batch (batch # batches) s =
     (let (out, s1) = run_with_rate_limit_retry clk callback engine_id
                        (batch, translate_batch batch) s
      in case out of
           Inl exc \<Rightarrow> (Inl exc, s1)
         | Inr batch_results \<Rightarrow>
            (let (out2, s2) = run_batches clk callback engine_id translate_batch batches s1
             in case out2 of
                  Inl exc \<Rightarrow> (Inl exc, s2)
                | Inr all_results \<Rightarrow> (Inr (batch_results @ all_results), s2)))"

text \<open>
  The last loop: \<open>fixup\<close> is \<^verbatim>\<open>_apply_glossary_and_name_fixes\<close> with the knowledge of
  the project, a function of the translated text.
\<close>

fun apply_results ::
  "(string \<Rightarrow> string) \<Rightarrow> ((nat \<times> request) \<times> result) list \<Rightarrow> text_block list \<Rightarrow> context_manager
     \<Rightarrow> text_block list \<times> context_manager" where
  "apply_results fixup [] blocks cm = (blocks, cm)"
| "apply_results fixup (((j, req), res) # rest) blocks cm =
     (let fixed = fixup (result_text res);
          blocks1 = blocks[j := (blocks ! j)\<lparr>translated_text := fixed\<rparr>];
          cm1 = (if fixed \<noteq> [] then add_segment (req_text req) fixed cm else cm)
      in apply_results fixup rest blocks1 cm1)"

text \<open>
  \<^verbatim>\<open>translate_blocks\<close>, from the point where the translator and the knowledge have been
  resolved: \<open>caps\<close> are the capabilities of the translator, \<open>engine_id\<close> the normalised
  id, \<open>src\<close> and \<open>dst\<close> the languages in lower case. The blocks are mutable objects;
  the result is what the call returns or raises, the blocks as the call leaves them, and
  the state.
\<close>

definition translate_blocks ::
  "(char \<Rightarrow> bool) \<Rightarrow> (string \<Rightarrow> string) \<Rightarrow> (nat \<Rightarrow> real) \<Rightarrow> (request list) callback
     \<Rightarrow> (request list \<Rightarrow> nat \<Rightarrow> (request list) service_state
          \<Rightarrow> (exn + result list) \<times> (request list) service_state)
     \<Rightarrow> capabilities \<Rightarrow> string \<Rightarrow> string \<Rightarrow> string \<Rightarrow> bool \<Rightarrow> text_block list
     \<Rightarrow> (request list) service_state
     \<Rightarrow> (exn + text_block list) \<times> text_block list \<times> (request list) service_state" where
  "translate_blocks isspace fixup clk callback translate_batch caps engine_id src dst
     reset_context blocks s =
     (let s0 = (if reset_context then s\<lparr>ctx_manager := clear (ctx_manager s)\<rparr> else s);
          context_limit = (if context_window caps = 0 then 10 else context_window caps);
          (blocks1, request_pairs) =
             build_request_pairs isspace src dst (ctx_manager s0) context_limit 0 blocks;
          requests = map snd request_pairs
      in if requests = [] then (Inr blocks1, blocks1, s0)
         else
           let batches = split_into_batches caps requests;
               (out, s1) = run_batches clk callback engine_id translate_batch batches s0
           in case out of
                Inl exc \<Rightarrow> (Inl exc, blocks1, s1)
              | Inr all_results \<Rightarrow>
                  if length all_results \<noteq> length request_pairs
                  then (Inl (TranslationError
                               ''Translator returned unexpected number of results'' None),
                        blocks1, s1)
                  else
                    let (blocks2, cm) = apply_results fixup (zip request_pairs all_results)
                                          blocks1 (ctx_manager s1)
                    in (Inr blocks2, blocks2, s1\<lparr>ctx_manager := cm\<rparr>))"

subsection \<open>Example inputs\<close>

definition example_request :: "string \<Rightarrow> request" where
  "example_request t =
     \<lparr>req_text = t, src_lang = ''ja'', dst_lang = ''en'', req_context = [], metadata = []\<rparr>"

definition example_caps :: "int \<Rightarrow> int option \<Rightarrow> capabilities" where
  "example_caps n limit =
     \<lparr>supports_batch = True, max_batch_size = n, max_chars_per_request = limit,
      max_chars_total = None, context_window = 10, attempt_delay_ms = 600\<rparr>"

definition example_container :: "int \<Rightarrow> container" where
  "example_container limit =
     \<lparr>name = ''deepl'', is_primary = True, block_timeout_sec = 60, max_failures = limit,
      fail_uses = 0, blocked_until = None, last_used_at = 0\<rparr>"

text \<open>A clock that advances by one second at every read.\<close>

definition example_clock :: "nat \<Rightarrow> real" where
  "example_clock k = real k"

definition failing_engine :: engine where
  "failing_engine k req c = Inl (TranslationError ''boom'' None)"

definition limited_engine :: engine where
  "limited_engine k req c = Inl (LimitedModeError (Some 429) ''rate limit'')"

text \<open>A translator with a single, unblocked primary container.\<close>

definition example_state :: "int \<Rightarrow> translator_state" where
  "example_state limit =
     \<lparr>containers = [example_container limit], clock_reads = 0, effects = []\<rparr>"

text \<open>The same translator three clock reads later, its container blocked until 62.\<close>

definition blocked_state :: translator_state where
  "blocked_state =
     \<lparr>containers = [(example_container 1)\<lparr>fail_uses := 1, blocked_until := Some 62,
                       last_used_at := 1\<rparr>],
      clock_reads = 3, effects = []\<rparr>"

text \<open>The limiter of the \<^verbatim>\<open>deepl\<close> entry of \<^verbatim>\<open>DEFAULT_LIMITS\<close>, not yet used.\<close>

definition example_limiter :: rate_limiter where
  "example_limiter =
     \<lparr>cfg = \<lparr>min_interval_sec = 4, max_calls_per_min = 10, limit_chars_per_request = 800\<rparr>,
      last_call_ts = 0, window_start_ts = 0, window_calls = 0\<rparr>"

text \<open>A backoff state in slow mode whose last error was at clock value 100.\<close>

definition slow_backoff :: backoff_state where
  "slow_backoff =
     \<lparr>penalty_delay_sec = 2, last_error_ts = 100, slow_mode = True, slow_since = 100,
      notified = True\<rparr>"

text \<open>A service that has made no call yet.\<close>

definition example_service :: "'l service_state" where
  "example_service =
     \<lparr>backoff_table = Map.empty, ctx_manager = \<lparr>max_length = 50, history = []\<rparr>,
      service_reads = 7, service_effects = []\<rparr>"

text \<open>
  A wrapped call that is rate limited at its first invocation and succeeds afterwards, and
  one that succeeds at once.
\<close>

definition limited_once :: "(string, string) thunk" where
  "limited_once =
     (''call'', \<lambda>k s. if k = 0 then (Inl (LimitedModeError (Some 429) ''rate limit''), s)
                       else (Inr ''ok'', s))"



definition raising_callback :: "'l callback" where
  "raising_callback = Some (\<lambda>engine_id s. (Some (OtherException ''no status bar''), s))"

text \<open>
  A dialog block with the given source text and earlier translation; a whitespace test
  that knows the space character only; an engine that returns every text as it is.
\<close>

definition example_block :: "string \<Rightarrow> string \<Rightarrow> text_block" where
  "example_block source previous =
     \<lparr>block_id = ''b1'', bbox = (0, 0, 10, 10), original_text = source,
      translated_text = previous, block_type = ''dialog'', enabled = True,
      orientation = ''horizontal'', confidence = 0, deleted = False, manual = False,
      font_size = None\<rparr>"

definition is_blank_char :: "char \<Rightarrow> bool" where
  "is_blank_char c \<longleftrightarrow> c = CHR '' ''"

definition echo_batch ::
  "request list \<Rightarrow> nat \<Rightarrow> (request list) service_state
     \<Rightarrow> (exn + result list) \<times> (request list) service_state" where
  "echo_batch batch k s =
     (Inr (map (\<lambda>r. \<lparr>result_text = req_text r, result_metadata = metadata r\<rparr>) batch), s)"

section \<open>Container life cycle\<close>

lemma mark_failure_fail_uses [simp]:
  "fail_uses (mark_failure t1 t2 c) = fail_uses c + 1"
  by (simp add: mark_failure_def Let_def)

lemma mark_failure_constants [simp]:
  "max_failures (mark_failure t1 t2 c) = max_failures c"
  "block_timeout_sec (mark_failure t1 t2 c) = block_timeout_sec c"
  "is_primary (mark_failure t1 t2 c) = is_primary c"
  "name (mark_failure t1 t2 c) = name c"
  by (simp_all add: mark_failure_def Let_def)

lemma mark_failure_blocked_until:
  "blocked_until (mark_failure t1 t2 c) =
     (if max_failures c \<le> fail_uses c + 1 then Some (t2 + block_timeout_sec c)
      else blocked_until c)"
  by (simp add: mark_failure_def Let_def)

text \<open>
  C5. Once \<^verbatim>\<open>mark_failure\<close> has brought \<^verbatim>\<open>fail_uses\<close> to \<^verbatim>\<open>max_failures\<close> or beyond
  (the block being set at clock value \<open>t2\<close>), \<^verbatim>\<open>is_blocked\<close> is true at exactly the
  instants before \<open>t2 + block_timeout_sec\<close>, so it stays true until the timeout has
  elapsed; \<^verbatim>\<open>restore\<close> unblocks; and \<^verbatim>\<open>mark_success\<close> on any container sets
  \<^verbatim>\<open>fail_uses\<close> to 0 and clears \<^verbatim>\<open>blocked_until\<close>, after which the container is not
  blocked at any time.
\<close>

theorem container_block_lifecycle:
  assumes "max_failures c \<le> fail_uses (mark_failure t1 t2 c)"
  shows "(is_blocked now (mark_failure t1 t2 c) \<longleftrightarrow> now < t2 + block_timeout_sec c)
       \<and> \<not> is_blocked now (restore (mark_failure t1 t2 c))
       \<and> fail_uses (restore (mark_failure t1 t2 c)) = 0
       \<and> fail_uses (mark_success t3 d) = 0
       \<and> blocked_until (mark_success t3 d) = None
       \<and> \<not> is_blocked now (mark_success t3 d)"
  using assms
  by (simp add: is_blocked_def mark_failure_blocked_until restore_def mark_success_def)

theorem container_block_lifecycle_witness:
  "max_failures \<lparr>name = ''deepl'', is_primary = True, block_timeout_sec = 60,
       max_failures = 3, fail_uses = 2, blocked_until = None, last_used_at = 0\<rparr>
     \<le> fail_uses (mark_failure 10 10 \<lparr>name = ''deepl'', is_primary = True,
       block_timeout_sec = 60, max_failures = 3, fail_uses = 2, blocked_until = None,
       last_used_at = 0\<rparr>)
   \<and> is_blocked 69 (mark_failure 10 10 \<lparr>name = ''deepl'', is_primary = True,
       block_timeout_sec = 60, max_failures = 3, fail_uses = 2, blocked_until = None,
       last_used_at = 0\<rparr>)
   \<and> \<not> is_blocked 70 (mark_failure 10 10 \<lparr>name = ''deepl'', is_primary = True,
       block_timeout_sec = 60, max_failures = 3, fail_uses = 2, blocked_until = None,
       last_used_at = 0\<rparr>)"
  using container_block_lifecycle [of "\<lparr>name = ''deepl'', is_primary = True,
       block_timeout_sec = 60, max_failures = 3, fail_uses = 2, blocked_until = None,
       last_used_at = 0\<rparr>" 10 10 69]
    container_block_lifecycle [of "\<lparr>name = ''deepl'', is_primary = True,
       block_timeout_sec = 60, max_failures = 3, fail_uses = 2, blocked_until = None,
       last_used_at = 0\<rparr>" 10 10 70]
  by simp

text \<open>
  C10. Take a container whose \<^verbatim>\<open>fail_uses\<close> has reached \<^verbatim>\<open>max_failures\<close> and whose
  block window \<open>b\<close> has elapsed at \<open>now\<close>. Reading \<^verbatim>\<open>is_blocked\<close> gives false and
  changes nothing: \<^verbatim>\<open>fail_uses\<close> is still at the limit, so the next \<^verbatim>\<open>mark_failure\<close>
  (blocking at clock value \<open>t2\<close>) raises the count by one and blocks the container until
  \<open>t2 + block_timeout_sec\<close>, a full timeout again. Only \<^verbatim>\<open>mark_success\<close> and
  \<^verbatim>\<open>restore\<close> bring \<^verbatim>\<open>fail_uses\<close> back to 0.
\<close>

theorem block_expiry_keeps_fail_uses:
  assumes "max_failures c \<le> fail_uses c"
    and "blocked_until c = Some b"
    and "b \<le> now"
  shows "\<not> is_blocked now c
       \<and> fail_uses (mark_failure t1 t2 c) = fail_uses c + 1
       \<and> fail_uses c < fail_uses (mark_failure t1 t2 c)
       \<and> blocked_until (mark_failure t1 t2 c) = Some (t2 + block_timeout_sec c)
       \<and> (is_blocked later (mark_failure t1 t2 c) \<longleftrightarrow> later < t2 + block_timeout_sec c)
       \<and> fail_uses (mark_success t3 c) = 0
       \<and> fail_uses (restore c) = 0"
  using assms
  by (simp add: is_blocked_def mark_failure_blocked_until restore_def mark_success_def)

theorem block_expiry_keeps_fail_uses_witness:
  "max_failures \<lparr>name = ''deepl'', is_primary = True, block_timeout_sec = 60,
       max_failures = 3, fail_uses = 3, blocked_until = Some 70, last_used_at = 10\<rparr>
     \<le> fail_uses \<lparr>name = ''deepl'', is_primary = True, block_timeout_sec = 60,
       max_failures = 3, fail_uses = 3, blocked_until = Some 70, last_used_at = 10\<rparr>
   \<and> (70::real) \<le> 71
   \<and> \<not> is_blocked 71 \<lparr>name = ''deepl'', is_primary = True, block_timeout_sec = 60,
       max_failures = 3, fail_uses = 3, blocked_until = Some 70, last_used_at = 10\<rparr>
   \<and> fail_uses (mark_failure 72 72 \<lparr>name = ''deepl'', is_primary = True,
       block_timeout_sec = 60, max_failures = 3, fail_uses = 3, blocked_until = Some 70,
       last_used_at = 10\<rparr>) = 4
   \<and> blocked_until (mark_failure 72 72 \<lparr>name = ''deepl'', is_primary = True,
       block_timeout_sec = 60, max_failures = 3, fail_uses = 3, blocked_until = Some 70,
       last_used_at = 10\<rparr>) = Some 132"
  using block_expiry_keeps_fail_uses [of "\<lparr>name = ''deepl'', is_primary = True,
       block_timeout_sec = 60, max_failures = 3, fail_uses = 3, blocked_until = Some 70,
       last_used_at = 10\<rparr>" 70 71 72 72]
  by simp

section \<open>Batch splitting\<close>

lemma batch_chars_simps [simp]:
  "batch_chars [] = 0"
  "batch_chars (xs @ ys) = batch_chars xs + batch_chars ys"
  "batch_chars [r] = int (length (req_text r))"
  by (simp_all add: batch_chars_def)

lemma split_loop_invariant:
  assumes "1 \<le> max_batch"
    and "\<forall>b \<in> set batches. batch_ok max_batch max_chars b"
    and "current = [] \<or> batch_ok max_batch max_chars current"
    and "current_chars = batch_chars current"
    and "split_loop max_batch max_chars batches current current_chars reqs = (bs, cur)"
  shows "(\<forall>b \<in> set bs. batch_ok max_batch max_chars b)
       \<and> (cur = [] \<or> batch_ok max_batch max_chars cur)
       \<and> concat bs @ cur = concat batches @ current @ reqs"
  using assms
proof (induction reqs arbitrary: batches current current_chars)
  case Nil
  then show ?case by simp
next
  case (Cons req reqs)
  let ?len = "int (length (req_text req))"
  define fits where "fits \<longleftrightarrow> int (length current) < max_batch \<and>
    (case max_chars of None \<Rightarrow> True | Some m \<Rightarrow> current_chars + ?len \<le> m)"
  have step: "split_loop max_batch max_chars batches current current_chars (req # reqs) =
      (if current \<noteq> [] \<and> \<not> fits
       then split_loop max_batch max_chars (batches @ [current]) [req] ?len reqs
       else split_loop max_batch max_chars batches (current @ [req]) (current_chars + ?len) reqs)"
    unfolding fits_def by (simp add: Let_def)
  show ?case
  proof (cases "current \<noteq> [] \<and> \<not> fits")
    case True
    have run: "split_loop max_batch max_chars (batches @ [current]) [req] ?len reqs = (bs, cur)"
      using Cons.prems(5) unfolding step if_P [OF True] .
    have closed: "\<forall>b \<in> set (batches @ [current]). batch_ok max_batch max_chars b"
      using Cons.prems(2,3) True by auto
    have single: "batch_ok max_batch max_chars [req]"
      using Cons.prems(1) by (simp add: batch_ok_def split: option.splits)
    have "(\<forall>b \<in> set bs. batch_ok max_batch max_chars b)
        \<and> (cur = [] \<or> batch_ok max_batch max_chars cur)
        \<and> concat bs @ cur = concat (batches @ [current]) @ [req] @ reqs"
      by (rule Cons.IH [OF Cons.prems(1) closed _ _ run]) (simp_all add: single)
    then show ?thesis by simp
  next
    case False
    have run: "split_loop max_batch max_chars batches (current @ [req])
        (current_chars + ?len) reqs = (bs, cur)"
      using Cons.prems(5) unfolding step if_not_P [OF False] .
    have grown: "batch_ok max_batch max_chars (current @ [req])"
    proof (cases "current = []")
      case True
      then show ?thesis
        using Cons.prems(1) by (simp add: batch_ok_def split: option.splits)
    next
      case nonempty: False
      with False have fits
        by simp
      then show ?thesis
        using Cons.prems(4) nonempty
        by (auto simp: batch_ok_def fits_def split: option.splits)
    qed
    have "(\<forall>b \<in> set bs. batch_ok max_batch max_chars b)
        \<and> (cur = [] \<or> batch_ok max_batch max_chars cur)
        \<and> concat bs @ cur = concat batches @ (current @ [req]) @ reqs"
      by (rule Cons.IH [OF Cons.prems(1,2) _ _ run]) (simp_all add: grown Cons.prems(4))
    then show ?thesis by simp
  qed
qed

lemma split_into_batches_sound:
  assumes "supports_batch caps"
  shows "(\<forall>b \<in> set (split_into_batches caps requests).
            batch_ok (max 1 (max_batch_size caps)) (max_chars_per_request caps) b)
       \<and> concat (split_into_batches caps requests) = requests"
proof -
  let ?mb = "max 1 (if max_batch_size caps = 0 then 1 else max_batch_size caps)"
  have mb: "?mb = max 1 (max_batch_size caps)" by simp
  obtain bs cur where run:
    "split_loop ?mb (max_chars_per_request caps) [] [] 0 requests = (bs, cur)"
    by (cases "split_loop ?mb (max_chars_per_request caps) [] [] 0 requests")
  have inv: "(\<forall>b \<in> set bs. batch_ok ?mb (max_chars_per_request caps) b)
       \<and> (cur = [] \<or> batch_ok ?mb (max_chars_per_request caps) cur)
       \<and> concat bs @ cur = concat [] @ [] @ requests"
    by (rule split_loop_invariant [OF _ _ _ _ run]) simp_all
  have res: "split_into_batches caps requests = (if cur \<noteq> [] then bs @ [cur] else bs)"
    using assms run by (simp add: split_into_batches_def Let_def)
  show ?thesis
    using inv unfolding res mb by auto
qed

text \<open>
  C1, as amended. For an engine with \<^verbatim>\<open>supports_batch\<close>, every batch produced is not
  empty and has at most \<^verbatim>\<open>max(1, max_batch_size)\<close> requests; when
  \<^verbatim>\<open>max_chars_per_request\<close> is set, the text lengths of a batch sum to at most that limit
  unless the batch consists of a single request; and the batches concatenated in order
  are the original request list.
\<close>

theorem split_into_batches_limits:
  assumes "supports_batch caps"
    and "b \<in> set (split_into_batches caps requests)"
  shows "b \<noteq> []
       \<and> int (length b) \<le> max 1 (max_batch_size caps)
       \<and> (\<forall>m. max_chars_per_request caps = Some m \<longrightarrow> batch_chars b \<le> m \<or> length b = 1)
       \<and> concat (split_into_batches caps requests) = requests"
  using split_into_batches_sound [OF assms(1), of requests] assms(2)
  by (auto simp: batch_ok_def split: option.splits)

theorem split_into_batches_limits_witness:
  "supports_batch (example_caps 2 (Some 10))
   \<and> [example_request ''aaaa'', example_request ''bbbb'']
       \<in> set (split_into_batches (example_caps 2 (Some 10))
           [example_request ''aaaa'', example_request ''bbbb'', example_request ''cccc''])
   \<and> split_into_batches (example_caps 2 (Some 10))
        [example_request ''aaaa'', example_request ''bbbb'', example_request ''cccc'']
      = [[example_request ''aaaa'', example_request ''bbbb''], [example_request ''cccc'']]
   \<and> batch_chars [example_request ''aaaa'', example_request ''bbbb''] \<le> 10"
proof -
  have run: "split_into_batches (example_caps 2 (Some 10))
        [example_request ''aaaa'', example_request ''bbbb'', example_request ''cccc'']
      = [[example_request ''aaaa'', example_request ''bbbb''], [example_request ''cccc'']]"
    by (simp add: split_into_batches_def example_caps_def example_request_def)
  have batchable: "supports_batch (example_caps 2 (Some 10))"
    by (simp add: example_caps_def)
  have member: "[example_request ''aaaa'', example_request ''bbbb'']
       \<in> set (split_into_batches (example_caps 2 (Some 10))
           [example_request ''aaaa'', example_request ''bbbb'', example_request ''cccc''])"
    unfolding run by simp
  show ?thesis
    using split_into_batches_limits [OF batchable member] batchable member run
    by (simp add: example_caps_def)
qed

text \<open>
  C1 as stated fails: a request longer than \<^verbatim>\<open>max_chars_per_request\<close> is never split and
  becomes a batch of its own, whose text length exceeds the limit. Likewise a
  \<^verbatim>\<open>max_batch_size\<close> of 0 is read as 1, and the batches have one request each.
\<close>

theorem split_into_batches_oversized_counterexample:
  "supports_batch (example_caps 2 (Some 3))
   \<and> max_chars_per_request (example_caps 2 (Some 3)) = Some 3
   \<and> split_into_batches (example_caps 2 (Some 3)) [example_request ''abcdef'']
       = [[example_request ''abcdef'']]
   \<and> batch_chars [example_request ''abcdef''] = 6
   \<and> \<not> batch_chars [example_request ''abcdef''] \<le> 3
   \<and> supports_batch (example_caps 0 None)
   \<and> split_into_batches (example_caps 0 None) [example_request ''abc'']
       = [[example_request ''abc'']]
   \<and> \<not> int (length [example_request ''abc'']) \<le> max_batch_size (example_caps 0 None)"
  by (simp add: split_into_batches_def example_caps_def example_request_def)

section \<open>Context history\<close>

lemma get_recent_context_positive:
  assumes "0 < limit"
  shows "get_recent_context limit cm
           = drop (length (history cm) - nat limit) (history cm)
       \<and> int (length (get_recent_context limit cm)) \<le> limit"
proof -
  have "nat (max (int (length (history cm)) - limit) 0) = length (history cm) - nat limit"
    using assms by linarith
  then show ?thesis
    using assms by (simp add: get_recent_context_def py_slice_from_def Let_def algebra_simps)
qed

text \<open>
  C9. With \<^verbatim>\<open>limit = 0\<close> the slice \<^verbatim>\<open>self._history[-0:]\<close> is the whole history:
  on a history of two entries \<^verbatim>\<open>get_recent_context(0)\<close> returns both, where the claim
  allows at most 0 entries.
\<close>

theorem get_recent_context_zero_limit:
  "get_recent_context 0
     \<lparr>max_length = 50,
      history = [\<lparr>original = ''a'', translated = ''b''\<rparr>,
                 \<lparr>original = ''c'', translated = ''d''\<rparr>]\<rparr>
     = [\<lparr>original = ''a'', translated = ''b''\<rparr>, \<lparr>original = ''c'', translated = ''d''\<rparr>]
   \<and> \<not> int (length (get_recent_context 0
        \<lparr>max_length = 50,
         history = [\<lparr>original = ''a'', translated = ''b''\<rparr>,
                    \<lparr>original = ''c'', translated = ''d''\<rparr>]\<rparr>)) \<le> 0"
  by (simp add: get_recent_context_def py_slice_from_def)

section \<open>Failover\<close>

declare failover_loop.simps [simp del]

lemma engine_calls_simps [simp]:
  "engine_calls [] = 0"
  "engine_calls (es @ es') = engine_calls es + engine_calls es'"
  "engine_calls (EngineCall i # es) = Suc (engine_calls es)"
  "engine_calls (Slept d # es) = engine_calls es"
  by (simp_all add: engine_calls_def)

lemma get_container_effects [simp]:
  "effects (snd (get_container clk prefer_primary last_used s)) = effects s"
  by (simp add: get_container_def Let_def split: option.splits prod.splits)

lemma container_mark_failure_effects [simp]:
  "effects (container_mark_failure clk i s) = effects s"
  by (simp add: container_mark_failure_def Let_def)

lemma container_mark_success_effects [simp]:
  "effects (container_mark_success clk i s) = effects s"
  by (simp add: container_mark_success_def)

lemma after_failure_effects:
  "\<exists>sleeps. effects (snd (after_failure clk caps i s)) = effects s @ EngineCall i # sleeps
     \<and> engine_calls sleeps = 0"
proof -
  obtain c s3 where gc: "get_container clk False (Some i)
      (container_mark_failure clk i (s\<lparr>effects := effects s @ [EngineCall i]\<rparr>)) = (c, s3)"
    by force
  have "effects s3 = effects s @ [EngineCall i]"
    using get_container_effects [of clk False "Some i"
      "container_mark_failure clk i (s\<lparr>effects := effects s @ [EngineCall i]\<rparr>)"] gc
    by simp
  then show ?thesis
    by (simp add: after_failure_def Let_def gc)
qed

lemma after_failure_calls:
  "engine_calls (effects (snd (after_failure clk caps i s))) = Suc (engine_calls (effects s))"
  using after_failure_effects [of clk caps i s] by auto

text \<open>The branches of the loop body, one lemma each.\<close>

lemma failover_loop_stop:
  assumes "\<not> attempts < max_attempts \<or> container = None"
  shows "failover_loop clk eng caps req attempts max_attempts container last_error s
           = failover_exit last_error s"
  using assms by (subst failover_loop.simps) (auto split: option.splits)

lemma failover_loop_success:
  assumes "attempts < max_attempts"
    and "eng (engine_calls (effects s)) req (containers s ! i) = Inr res"
  shows "failover_loop clk eng caps req attempts max_attempts (Some i) last_error s
           = (Inr res, container_mark_success clk i (s\<lparr>effects := effects s @ [EngineCall i]\<rparr>))"
  using assms by (subst failover_loop.simps) simp

lemma failover_loop_limited:
  assumes "attempts < max_attempts"
    and "eng (engine_calls (effects s)) req (containers s ! i) = Inl (LimitedModeError status msg)"
  shows "failover_loop clk eng caps req attempts max_attempts (Some i) last_error s
           = (Inl (LimitedModeError status msg),
              container_mark_failure clk i (s\<lparr>effects := effects s @ [EngineCall i]\<rparr>))"
  using assms by (subst failover_loop.simps) simp

lemma failover_loop_unexpected:
  assumes "attempts < max_attempts"
    and "eng (engine_calls (effects s)) req (containers s ! i) = Inl exc"
    and "exc = ValueError msg \<or> exc = OtherException msg"
  shows "failover_loop clk eng caps req attempts max_attempts (Some i) last_error s
           = (Inl (TranslationError msg (Some exc)),
              container_mark_failure clk i (s\<lparr>effects := effects s @ [EngineCall i]\<rparr>))"
  using assms by (subst failover_loop.simps) auto

lemma failover_loop_retry:
  assumes "attempts < max_attempts"
    and "eng (engine_calls (effects s)) req (containers s ! i) = Inl (TranslationError msg cause)"
  shows "failover_loop clk eng caps req attempts max_attempts (Some i) last_error s
           = failover_loop clk eng caps req (attempts + 1) max_attempts
               (fst (after_failure clk caps i s)) (Some (TranslationError msg cause))
               (snd (after_failure clk caps i s))"
  using assms
  by (subst failover_loop.simps) (simp add: after_failure_def Let_def split: prod.splits)

text \<open>
  Computation induction for the loop in terms of the branch lemmas: a property holds of
  every loop state when it holds where the loop stops or returns, and is passed back
  through a retry.
\<close>

lemma failover_loop_cases [consumes 0, case_names stop success limited unexpected retry]:
  fixes eng :: engine and req :: request and max_attempts :: int
  assumes "\<And>attempts container last_error s.
      \<not> attempts < max_attempts \<or> container = None \<Longrightarrow> P attempts container last_error s"
    and "\<And>attempts i last_error s res.
      attempts < max_attempts \<Longrightarrow>
      eng (engine_calls (effects s)) req (containers s ! i) = Inr res \<Longrightarrow>
      P attempts (Some i) last_error s"
    and "\<And>attempts i last_error s status msg.
      attempts < max_attempts \<Longrightarrow>
      eng (engine_calls (effects s)) req (containers s ! i) = Inl (LimitedModeError status msg) \<Longrightarrow>
      P attempts (Some i) last_error s"
    and "\<And>attempts i last_error s exc msg.
      attempts < max_attempts \<Longrightarrow>
      eng (engine_calls (effects s)) req (containers s ! i) = Inl exc \<Longrightarrow>
      exc = ValueError msg \<or> exc = OtherException msg \<Longrightarrow>
      P attempts (Some i) last_error s"
    and "\<And>attempts i last_error s msg cause.
      attempts < max_attempts \<Longrightarrow>
      eng (engine_calls (effects s)) req (containers s ! i) = Inl (TranslationError msg cause) \<Longrightarrow>
      P (attempts + 1) (fst (after_failure clk caps i s)) (Some (TranslationError msg cause))
        (snd (after_failure clk caps i s)) \<Longrightarrow>
      P attempts (Some i) last_error s"
  shows "P attempts container last_error s"
proof (induction "nat (max_attempts - attempts)" arbitrary: attempts container last_error s
    rule: less_induct)
  case (less attempts container last_error s)
  show ?case
  proof (cases "\<not> attempts < max_attempts \<or> container = None")
    case True
    then show ?thesis by (rule assms(1))
  next
    case False
    then obtain i where go: "attempts < max_attempts" and some: "container = Some i"
      by auto
    show ?thesis
    proof (cases "eng (engine_calls (effects s)) req (containers s ! i)")
      case (Inr res)
      show ?thesis unfolding some by (rule assms(2) [OF go Inr])
    next
      case (Inl exc)
      show ?thesis
      proof (cases exc)
        case (LimitedModeError status msg)
        show ?thesis
          unfolding some by (rule assms(3) [OF go Inl [unfolded LimitedModeError]])
      next
        case (TranslationError msg cause)
        have "P (attempts + 1) (fst (after_failure clk caps i s))
            (Some (TranslationError msg cause)) (snd (after_failure clk caps i s))"
          by (rule less) (use go in simp)
        then show ?thesis
          unfolding some by (rule assms(5) [OF go Inl [unfolded TranslationError]])
      next
        case (ValueError msg)
        show ?thesis
          unfolding some by (rule assms(4) [OF go Inl, of msg]) (simp add: ValueError)
      next
        case (OtherException msg)
        show ?thesis
          unfolding some by (rule assms(4) [OF go Inl, of msg]) (simp add: OtherException)
      qed
    qed
  qed
qed

lemma failover_loop_calls:
  fixes eng :: engine
  shows "engine_calls (effects (snd (failover_loop clk eng caps req attempts max_attempts
            container last_error s)))
         \<le> engine_calls (effects s) + nat (max_attempts - attempts)"
proof (induction attempts container last_error s
    rule: failover_loop_cases [where eng = eng and req = req and max_attempts = max_attempts
      and clk = clk and caps = caps])
  case (stop attempts container last_error s)
  then show ?case
    by (simp add: failover_loop_stop failover_exit_def split: option.splits)
next
  case (success attempts i last_error s res)
  then show ?case by (simp add: failover_loop_success)
next
  case (limited attempts i last_error s status msg)
  then show ?case by (simp add: failover_loop_limited)
next
  case (unexpected attempts i last_error s exc msg)
  then show ?case by (simp add: failover_loop_unexpected [where msg = msg])
next
  case (retry attempts i last_error s msg cause)
  then show ?case
    by (simp add: failover_loop_retry after_failure_calls)
qed

text \<open>Every effect of the loop is appended to the effects already recorded.\<close>

lemma failover_loop_effects_extend:
  fixes eng :: engine
  shows "\<exists>es. effects (snd (failover_loop clk eng caps req attempts max_attempts
            container last_error s)) = effects s @ es"
proof (induction attempts container last_error s
    rule: failover_loop_cases [where eng = eng and req = req and max_attempts = max_attempts
      and clk = clk and caps = caps])
  case (stop attempts container last_error s)
  then show ?case
    by (simp add: failover_loop_stop failover_exit_def split: option.splits)
next
  case (success attempts i last_error s res)
  then show ?case by (simp add: failover_loop_success)
next
  case (limited attempts i last_error s status msg)
  then show ?case by (simp add: failover_loop_limited)
next
  case (unexpected attempts i last_error s exc msg)
  then show ?case by (simp add: failover_loop_unexpected [where msg = msg])
next
  case (retry attempts i last_error s msg cause)
  obtain sleeps where "effects (snd (after_failure clk caps i s)) = effects s @ EngineCall i # sleeps"
    using after_failure_effects by blast
  with retry show ?case
    by (auto simp add: failover_loop_retry)
qed

lemma failover_loop_first_call:
  fixes eng :: engine
  assumes "attempts < max_attempts"
  shows "\<exists>es. effects (snd (failover_loop clk eng caps req attempts max_attempts
            (Some i) last_error s)) = effects s @ EngineCall i # es"
proof (cases "eng (engine_calls (effects s)) req (containers s ! i)")
  case (Inr res)
  then show ?thesis using assms by (simp add: failover_loop_success)
next
  case (Inl exc)
  show ?thesis
  proof (cases exc)
    case (LimitedModeError status msg)
    then show ?thesis using assms Inl by (simp add: failover_loop_limited)
  next
    case (TranslationError msg cause)
    obtain sleeps where a: "effects (snd (after_failure clk caps i s)) = effects s @ EngineCall i # sleeps"
      using after_failure_effects by blast
    obtain es where "effects (snd (failover_loop clk eng caps req (attempts + 1) max_attempts
        (fst (after_failure clk caps i s)) (Some exc) (snd (after_failure clk caps i s))))
        = effects (snd (after_failure clk caps i s)) @ es"
      using failover_loop_effects_extend by blast
    then show ?thesis
      using assms Inl TranslationError a by (simp add: failover_loop_retry)
  next
    case (ValueError msg)
    then show ?thesis using assms Inl by (simp add: failover_loop_unexpected [where msg = msg])
  next
    case (OtherException msg)
    then show ?thesis using assms Inl by (simp add: failover_loop_unexpected [where msg = msg])
  qed
qed

lemma failover_loop_all_fail:
  fixes eng :: engine
  assumes eng: "\<forall>k r c. eng k r c = Inl (TranslationError (msg k) (cause k))"
  shows "(engine_calls (effects (snd (failover_loop clk eng caps req attempts max_attempts
              container last_error s))) = engine_calls (effects s)
          \<and> failover_loop clk eng caps req attempts max_attempts container last_error s
              = failover_exit last_error s)
       \<or> (engine_calls (effects s) < engine_calls (effects (snd (failover_loop clk eng caps req
              attempts max_attempts container last_error s)))
          \<and> (\<exists>k. Suc k = engine_calls (effects (snd (failover_loop clk eng caps req
                   attempts max_attempts container last_error s)))
                \<and> fst (failover_loop clk eng caps req attempts max_attempts container last_error s)
                   = Inl (TranslationError (msg k) (Some (TranslationError (msg k) (cause k))))))"
proof (induction attempts container last_error s
    rule: failover_loop_cases [where eng = eng and req = req and max_attempts = max_attempts
      and clk = clk and caps = caps])
  case (stop attempts container last_error s)
  then show ?case
    by (simp add: failover_loop_stop failover_exit_def split: option.splits)
next
  case (success attempts i last_error s res)
  then show ?case using eng by simp
next
  case (limited attempts i last_error s status msg)
  then show ?case using eng by simp
next
  case (unexpected attempts i last_error s exc msg)
  then show ?case using eng by auto
next
  case (retry attempts i last_error s msg' cause')
  have outcome: "msg' = msg (engine_calls (effects s))" "cause' = cause (engine_calls (effects s))"
    using retry(2) eng by simp_all
  let ?next = "failover_loop clk eng caps req (attempts + 1) max_attempts
      (fst (after_failure clk caps i s)) (Some (TranslationError msg' cause'))
      (snd (after_failure clk caps i s))"
  have unfold: "failover_loop clk eng caps req attempts max_attempts (Some i) last_error s = ?next"
    using retry(1,2) by (rule failover_loop_retry)
  from retry(3) show ?case
  proof
    assume stopped: "engine_calls (effects (snd ?next))
        = engine_calls (effects (snd (after_failure clk caps i s)))
      \<and> ?next = failover_exit (Some (TranslationError msg' cause'))
          (snd (after_failure clk caps i s))"
    then have "fst ?next = Inl (TranslationError msg' (Some (TranslationError msg' cause')))"
      by (simp add: failover_exit_def)
    moreover have "engine_calls (effects (snd ?next)) = Suc (engine_calls (effects s))"
      by (simp only: conjunct1 [OF stopped] after_failure_calls)
    ultimately show ?thesis
      unfolding unfold outcome by simp
  next
    assume "engine_calls (effects (snd (after_failure clk caps i s)))
        < engine_calls (effects (snd ?next))
      \<and> (\<exists>k. Suc k = engine_calls (effects (snd ?next))
            \<and> fst ?next = Inl (TranslationError (msg k) (Some (TranslationError (msg k) (cause k)))))"
    then show ?thesis
      unfolding unfold by (simp add: after_failure_calls)
  qed
qed

lemma primary_container_some:
  assumes "cs \<noteq> []"
  shows "\<exists>p < length cs. primary_container cs = Some p"
proof (cases "find (\<lambda>i. is_primary (cs ! i)) [0..<length cs]")
  case None
  then show ?thesis using assms by (simp add: primary_container_def)
next
  case (Some i)
  then have "i \<in> set [0..<length cs]"
    by (auto simp: find_Some_iff)
  then show ?thesis using Some by (simp add: primary_container_def)
qed

lemma get_container_length [simp]:
  "length (containers (snd (get_container clk prefer_primary last_used s))) = length (containers s)"
  by (auto simp add: get_container_def Let_def split: option.splits prod.splits if_splits)

text \<open>Selection when every container is blocked at its read of the clock.\<close>

lemma get_container_all_blocked:
  assumes "\<forall>i < length (containers s). is_blocked (clk (clock_reads s + i)) (containers s ! i)"
  shows "get_container clk False last_used s
           = (None, s\<lparr>clock_reads := clock_reads s + length (containers s)\<rparr>)"
    and "primary_container (containers s) = Some p \<Longrightarrow>
         get_container clk True last_used s
           = (Some p,
              s\<lparr>containers := (containers s)
                    [p := (restore (containers s ! p))
                       \<lparr>last_used_at := clk (clock_reads s + length (containers s))\<rparr>],
                clock_reads := Suc (clock_reads s + length (containers s))\<rparr>)"
proof -
  have none: "filter (\<lambda>i. \<not> is_blocked (clk (clock_reads s + i)) (containers s ! i))
      [0..<length (containers s)] = []"
    using assms by (simp add: filter_empty_conv)
  show "get_container clk False last_used s
           = (None, s\<lparr>clock_reads := clock_reads s + length (containers s)\<rparr>)"
    by (simp add: get_container_def none)
  assume p: "primary_container (containers s) = Some p"
  have "p < length (containers s)"
    using p primary_container_some [of "containers s"]
    by (cases "containers s = []") (auto simp: primary_container_def)
  then show "get_container clk True last_used s
           = (Some p,
              s\<lparr>containers := (containers s)
                    [p := (restore (containers s ! p))
                       \<lparr>last_used_at := clk (clock_reads s + length (containers s))\<rparr>],
                clock_reads := Suc (clock_reads s + length (containers s))\<rparr>)"
    by (simp add: get_container_def none p Let_def)
qed

lemma get_container_initial_some:
  assumes "containers s \<noteq> []"
  shows "\<exists>i. fst (get_container clk True last_used s) = Some i"
proof (cases "filter (\<lambda>i. \<not> is_blocked (clk (clock_reads s + i)) (containers s ! i))
      [0..<length (containers s)] = []")
  case True
  obtain p where "primary_container (containers s) = Some p"
    using primary_container_some [OF assms] by blast
  then show ?thesis
    using True by (simp add: get_container_def Let_def)
next
  case False
  then show ?thesis
    by (simp add: get_container_def Let_def)
qed

lemma translate_with_failover_unfold:
  "translate_with_failover clk eng caps req s
     = failover_loop clk eng caps req 0 (max (int (length (containers s))) 1 * 2)
         (fst (get_container clk True None s)) None (snd (get_container clk True None s))"
  by (simp add: translate_with_failover_def Let_def split: prod.splits)
     (metis get_container_length snd_conv)

text \<open>
  C2. For a translator with at least one container, a run of the failover makes at most
  \<open>2 \<times> number_of_containers\<close> engine calls, and the cap \<^verbatim>\<open>max(len, 1) * 2\<close> is
  that number and never below 2. In a loop state where the attempts are exhausted or no
  container is selected, the loop ends with a \<^verbatim>\<open>TranslationError\<close> whose cause is the
  last error, if there is one. In particular, when every engine call raises a
  \<^verbatim>\<open>TranslationError\<close>, the run makes at least one call and raises a
  \<^verbatim>\<open>TranslationError\<close> that wraps the error of the last call made.
\<close>

theorem failover_attempts_capped:
  fixes eng :: engine
  assumes "containers s \<noteq> []"
  shows "engine_calls (effects (snd (translate_with_failover clk eng caps req s)))
           \<le> engine_calls (effects s) + 2 * length (containers s)
       \<and> max (int (length (containers s))) 1 * 2 = 2 * int (length (containers s))
       \<and> 2 \<le> max (int (length (containers s))) 1 * 2
       \<and> (\<not> attempts < max_attempts \<or> container = None \<longrightarrow>
            failover_loop clk eng caps req attempts max_attempts container last_error st
              = (Inl (TranslationError
                        (case last_error of
                           None \<Rightarrow> ''No available translator containers''
                         | Some e \<Rightarrow> exn_str e)
                        last_error), st))
       \<and> ((\<forall>k r c. eng k r c = Inl (TranslationError (msg k) (cause k))) \<longrightarrow>
            (\<exists>k. Suc k = engine_calls (effects (snd (translate_with_failover clk eng caps req s)))
                \<and> engine_calls (effects s) \<le> k
                \<and> fst (translate_with_failover clk eng caps req s)
                    = Inl (TranslationError (msg k) (Some (TranslationError (msg k) (cause k))))))"
proof -
  let ?sel = "get_container clk True None s"
  let ?cap = "max (int (length (containers s))) 1 * 2"
  have nonempty: "1 \<le> int (length (containers s))"
    using assms by (cases "containers s") simp_all
  have "engine_calls (effects (snd (translate_with_failover clk eng caps req s)))
      \<le> engine_calls (effects (snd ?sel)) + nat (?cap - 0)"
    unfolding translate_with_failover_unfold by (rule failover_loop_calls)
  then have bound: "engine_calls (effects (snd (translate_with_failover clk eng caps req s)))
      \<le> engine_calls (effects s) + 2 * length (containers s)"
    using nonempty by simp
  have cap: "?cap = 2 * int (length (containers s))" "2 \<le> ?cap"
    using nonempty by simp_all
  have stop: "\<not> attempts < max_attempts \<or> container = None \<longrightarrow>
      failover_loop clk eng caps req attempts max_attempts container last_error st
        = (Inl (TranslationError
                  (case last_error of
                     None \<Rightarrow> ''No available translator containers''
                   | Some e \<Rightarrow> exn_str e)
                  last_error), st)"
    by (auto simp: failover_loop_stop failover_exit_def split: option.splits)
  have all_fail: "\<exists>k. Suc k = engine_calls (effects (snd (translate_with_failover clk eng caps req s)))
        \<and> engine_calls (effects s) \<le> k
        \<and> fst (translate_with_failover clk eng caps req s)
            = Inl (TranslationError (msg k) (Some (TranslationError (msg k) (cause k))))"
    if eng: "\<forall>k r c. eng k r c = Inl (TranslationError (msg k) (cause k))"
  proof -
    obtain i where sel: "fst ?sel = Some i"
      using get_container_initial_some [OF assms] by blast
    have "0 < ?cap" using cap(2) by linarith
    then obtain es where "effects (snd (translate_with_failover clk eng caps req s))
        = effects (snd ?sel) @ EngineCall i # es"
      unfolding translate_with_failover_unfold sel
      using failover_loop_first_call by blast
    then have called: "engine_calls (effects s)
        < engine_calls (effects (snd (translate_with_failover clk eng caps req s)))"
      by simp
    from failover_loop_all_fail [OF eng, of clk caps req 0 ?cap "fst ?sel" None "snd ?sel"]
    show ?thesis
      using called unfolding translate_with_failover_unfold [symmetric]
      by auto
  qed
  show ?thesis
    using bound cap stop all_fail by blast
qed

theorem failover_attempts_capped_witness:
  "containers (example_state 1) \<noteq> []
   \<and> engine_calls (effects (snd (translate_with_failover example_clock failing_engine
         (example_caps 1 None) (example_request ''x'') (example_state 1)))) \<le> 2
   \<and> \<not> (2::int) < 2
   \<and> failover_loop example_clock failing_engine (example_caps 1 None) (example_request ''x'')
         2 2 (Some 0) None (example_state 1)
       = (Inl (TranslationError ''No available translator containers'' None), example_state 1)
   \<and> (\<forall>k r c. failing_engine k r c = Inl (TranslationError ''boom'' None))
   \<and> fst (translate_with_failover example_clock failing_engine
         (example_caps 1 None) (example_request ''x'') (example_state 1))
       = Inl (TranslationError ''boom'' (Some (TranslationError ''boom'' None)))"
proof -
  have nonempty: "containers (example_state 1) \<noteq> []"
    by (simp add: example_state_def)
  have failing: "\<forall>k r c. failing_engine k r c = Inl (TranslationError ''boom'' None)"
    by (simp add: failing_engine_def)
  show ?thesis
    using failover_attempts_capped [OF nonempty, where clk = example_clock
        and eng = failing_engine and caps = "example_caps 1 None"
        and req = "example_request ''x''" and attempts = 2 and max_attempts = 2
        and container = "Some 0" and last_error = None and st = "example_state 1"
        and msg = "\<lambda>k. ''boom''" and cause = "\<lambda>k. None"]
      nonempty failing
    by (simp add: example_state_def)
qed

text \<open>
  C3. In any state of the failover loop that reaches the engine call (attempts left, a
  container \<open>i\<close> selected): when the call raises \<^verbatim>\<open>LimitedModeError\<close>, the loop raises
  that very error (same status code and message), records the one engine call and nothing
  after it (no sleep, no further call, no selection of another container), and the only
  change to the containers is \<^verbatim>\<open>mark_failure\<close> on container \<open>i\<close>.
\<close>

theorem limited_mode_error_reraised:
  fixes eng :: engine
  assumes "attempts < max_attempts"
    and "eng (engine_calls (effects s)) req (containers s ! i) = Inl (LimitedModeError status msg)"
  shows "fst (failover_loop clk eng caps req attempts max_attempts (Some i) last_error s)
           = Inl (LimitedModeError status msg)
       \<and> effects (snd (failover_loop clk eng caps req attempts max_attempts (Some i) last_error s))
           = effects s @ [EngineCall i]
       \<and> containers (snd (failover_loop clk eng caps req attempts max_attempts (Some i)
             last_error s))
           = (containers s)[i := mark_failure (clk (clock_reads s)) (clk (Suc (clock_reads s)))
                                   (containers s ! i)]"
  using assms by (simp add: failover_loop_limited container_mark_failure_def Let_def)

theorem limited_mode_error_reraised_witness:
  "(0::int) < 2
   \<and> limited_engine (engine_calls (effects (example_state 3))) (example_request ''x'')
         (containers (example_state 3) ! 0) = Inl (LimitedModeError (Some 429) ''rate limit'')
   \<and> fst (failover_loop example_clock limited_engine (example_caps 1 None)
         (example_request ''x'') 0 2 (Some 0) None (example_state 3))
       = Inl (LimitedModeError (Some 429) ''rate limit'')
   \<and> effects (snd (failover_loop example_clock limited_engine (example_caps 1 None)
         (example_request ''x'') 0 2 (Some 0) None (example_state 3))) = [EngineCall 0]
   \<and> map fail_uses (containers (snd (failover_loop example_clock limited_engine
         (example_caps 1 None) (example_request ''x'') 0 2 (Some 0) None (example_state 3))))
       = [1]"
proof -
  have go: "(0::int) < 2" by simp
  have raised: "limited_engine (engine_calls (effects (example_state 3)))
      (example_request ''x'') (containers (example_state 3) ! 0)
        = Inl (LimitedModeError (Some 429) ''rate limit'')"
    by (simp add: limited_engine_def)
  show ?thesis
    using limited_mode_error_reraised [where attempts = 0 and max_attempts = 2
        and eng = limited_engine and s = "example_state 3" and req = "example_request ''x''"
        and i = 0 and status = "Some 429" and msg = "''rate limit''" and clk = example_clock
        and caps = "example_caps 1 None" and last_error = None]
      go raised
    by (simp add: example_state_def example_container_def)
qed

text \<open>
  C6, as amended. Suppose every container is blocked when its \<^verbatim>\<open>is_blocked\<close> is read
  during a selection. At the initial selection of a failover run
  (\<^verbatim>\<open>prefer_primary=True\<close>) the primary container \<open>p\<close> is restored (failure count 0, no
  block), stamped as used and selected, and the run continues with the loop on \<open>p\<close>, whose
  first effect is an engine call on \<open>p\<close>; with a single container \<open>p\<close> is that container.
  At a selection with \<^verbatim>\<open>prefer_primary=False\<close>, which is the one made after a failed
  attempt, no container is selected and no container is changed.
\<close>

theorem all_blocked_selection:
  fixes eng :: engine
  assumes "containers s \<noteq> []"
    and "\<forall>i < length (containers s). is_blocked (clk (clock_reads s + i)) (containers s ! i)"
  shows "\<exists>p < length (containers s).
           primary_container (containers s) = Some p
         \<and> (length (containers s) = 1 \<longrightarrow> p = 0)
         \<and> get_container clk True last_used s
             = (Some p,
                s\<lparr>containers := (containers s)
                      [p := (restore (containers s ! p))
                         \<lparr>last_used_at := clk (clock_reads s + length (containers s))\<rparr>],
                  clock_reads := Suc (clock_reads s + length (containers s))\<rparr>)
         \<and> translate_with_failover clk eng caps req s
             = failover_loop clk eng caps req 0 (2 * int (length (containers s))) (Some p) None
                 (s\<lparr>containers := (containers s)
                      [p := (restore (containers s ! p))
                         \<lparr>last_used_at := clk (clock_reads s + length (containers s))\<rparr>],
                  clock_reads := Suc (clock_reads s + length (containers s))\<rparr>)
         \<and> (\<exists>es. effects (snd (translate_with_failover clk eng caps req s))
                    = effects s @ EngineCall p # es)
         \<and> get_container clk False last_used s
             = (None, s\<lparr>clock_reads := clock_reads s + length (containers s)\<rparr>)"
proof -
  obtain p where p: "p < length (containers s)" "primary_container (containers s) = Some p"
    using primary_container_some [OF assms(1)] by blast
  let ?s1 = "s\<lparr>containers := (containers s)
                      [p := (restore (containers s ! p))
                         \<lparr>last_used_at := clk (clock_reads s + length (containers s))\<rparr>],
                  clock_reads := Suc (clock_reads s + length (containers s))\<rparr>"
  have single: "length (containers s) = 1 \<longrightarrow> p = 0"
    using p(1) by simp
  have pick: "get_container clk True lu s = (Some p, ?s1)" for lu
    by (rule get_container_all_blocked(2) [OF assms(2) p(2)])
  have none: "get_container clk False last_used s
      = (None, s\<lparr>clock_reads := clock_reads s + length (containers s)\<rparr>)"
    by (rule get_container_all_blocked(1) [OF assms(2)])
  have nonempty: "1 \<le> int (length (containers s))"
    using assms(1) by (cases "containers s") simp_all
  have cap: "max (int (length (containers s))) 1 * 2 = 2 * int (length (containers s))"
    using nonempty by simp
  have run: "translate_with_failover clk eng caps req s
      = failover_loop clk eng caps req 0 (2 * int (length (containers s))) (Some p) None ?s1"
    unfolding translate_with_failover_unfold pick cap by simp
  have "0 < 2 * int (length (containers s))"
    using nonempty by linarith
  then obtain es where "effects (snd (failover_loop clk eng caps req 0
      (2 * int (length (containers s))) (Some p) None ?s1)) = effects ?s1 @ EngineCall p # es"
    using failover_loop_first_call by blast
  then have first: "\<exists>es. effects (snd (translate_with_failover clk eng caps req s))
      = effects s @ EngineCall p # es"
    unfolding run by simp
  show ?thesis
    using p single pick none run first by blast
qed

theorem all_blocked_selection_witness:
  "containers blocked_state \<noteq> []
   \<and> length (containers blocked_state) = 1
   \<and> is_blocked (example_clock (clock_reads blocked_state + 0)) (containers blocked_state ! 0)
   \<and> get_container example_clock True None blocked_state
       = (Some 0,
          \<lparr>containers = [(example_container 1)\<lparr>last_used_at := 4\<rparr>],
           clock_reads = 5, effects = []\<rparr>)
   \<and> get_container example_clock False None blocked_state
       = (None, blocked_state\<lparr>clock_reads := 4\<rparr>)"
proof -
  have nonempty: "containers blocked_state \<noteq> []"
    by (simp add: blocked_state_def)
  have blocked: "\<forall>i < length (containers blocked_state).
      is_blocked (example_clock (clock_reads blocked_state + i)) (containers blocked_state ! i)"
    by (simp add: blocked_state_def is_blocked_def example_clock_def example_container_def)
  show ?thesis
    using all_blocked_selection [OF nonempty blocked, of None failing_engine
        "example_caps 1 None" "example_request ''x''"]
      nonempty blocked
    unfolding example_clock_def
    by (auto simp add: blocked_state_def example_container_def restore_def)
qed

text \<open>
  C6 as stated fails at the selection made inside the loop. A translator whose single
  container has \<^verbatim>\<open>max_failures = 1\<close> blocks it at the first failed attempt; the
  selection that follows finds every container blocked, restores nothing and returns no
  container, and the run fails after one engine call with the container still blocked.
\<close>

theorem blocked_reselection_counterexample:
  "translate_with_failover example_clock failing_engine (example_caps 1 None)
       (example_request ''x'') (example_state 1)
     = (Inl (TranslationError ''boom'' (Some (TranslationError ''boom'' None))),
        \<lparr>containers = [(example_container 1)\<lparr>fail_uses := 1, blocked_until := Some 63,
                          last_used_at := 2\<rparr>],
         clock_reads = 5, effects = [EngineCall 0, Slept (3 / 5)]\<rparr>)
   \<and> is_blocked (example_clock 4)
        ((example_container 1)\<lparr>fail_uses := 1, blocked_until := Some 63, last_used_at := 2\<rparr>)
   \<and> get_container example_clock False (Some 0)
        \<lparr>containers = [(example_container 1)\<lparr>fail_uses := 1, blocked_until := Some 63,
                          last_used_at := 2\<rparr>],
         clock_reads = 4, effects = [EngineCall 0]\<rparr>
     = (None,
        \<lparr>containers = [(example_container 1)\<lparr>fail_uses := 1, blocked_until := Some 63,
                          last_used_at := 2\<rparr>],
         clock_reads = 5, effects = [EngineCall 0]\<rparr>)"
  by (simp add: translate_with_failover_def get_container_def example_state_def
      example_container_def example_clock_def failing_engine_def is_blocked_def
      example_caps_def container_mark_failure_def mark_failure_def failover_exit_def
      failover_loop.simps Let_def)

section \<open>Slow mode\<close>

text \<open>
  The length check comes first: a text longer than \<^verbatim>\<open>max_chars_per_request\<close> raises
  \<^verbatim>\<open>ValueError\<close> whatever the backoff state is, before the clock is read.
\<close>

lemma wait_or_raise_too_long:
  assumes "limit_chars_per_request (cfg limiter) < text_length"
  shows "wait_or_raise clk t text_length backoff limiter
           = Inl (ValueError ''Text too long for limited mode'')"
  using assms by (simp add: wait_or_raise_def)

text \<open>
  C7. A call of \<^verbatim>\<open>wait_or_raise\<close> that passes the length check
  (\<^verbatim>\<open>text_length\<close> within \<^verbatim>\<open>max_chars_per_request\<close>, the case in which the limiter
  paces the call at all): when the backoff state is in slow mode with a recorded
  (non-zero) last error timestamp and the clock read of the call is more than 300 seconds
  after it, the call clears slow mode (\<^verbatim>\<open>slow_mode = False\<close>,
  \<^verbatim>\<open>penalty_delay_sec = 0\<close>, \<^verbatim>\<open>slow_since = 0\<close>, \<^verbatim>\<open>notified = False\<close>), records the
  call time and returns after that single clock read without sleeping.
\<close>

theorem slow_mode_auto_clear:
  assumes "text_length \<le> limit_chars_per_request (cfg limiter)"
    and "slow_mode b"
    and "last_error_ts b \<noteq> 0"
    and "clk t - last_error_ts b > 300"
  shows "wait_or_raise clk t text_length (Some b) limiter
           = Inr (limiter\<lparr>last_call_ts := clk t\<rparr>,
                  Some (b\<lparr>slow_mode := False, penalty_delay_sec := 0, slow_since := 0,
                          notified := False\<rparr>),
                  [], Suc t)"
  using assms by (simp add: wait_or_raise_def)

theorem slow_mode_auto_clear_witness:
  "(10::int) \<le> limit_chars_per_request (cfg example_limiter)
   \<and> slow_mode slow_backoff
   \<and> last_error_ts slow_backoff \<noteq> 0
   \<and> example_clock 1000 - last_error_ts slow_backoff > 300
   \<and> wait_or_raise example_clock 1000 10 (Some slow_backoff) example_limiter
       = Inr (example_limiter\<lparr>last_call_ts := 1000\<rparr>,
              Some \<lparr>penalty_delay_sec = 0, last_error_ts = 100, slow_mode = False,
                    slow_since = 0, notified = False\<rparr>,
              [], 1001)"
proof -
  have within: "(10::int) \<le> limit_chars_per_request (cfg example_limiter)"
    by (simp add: example_limiter_def)
  have slow: "slow_mode slow_backoff" "last_error_ts slow_backoff \<noteq> 0"
    by (simp_all add: slow_backoff_def)
  have late: "example_clock 1000 - last_error_ts slow_backoff > 300"
    by (simp add: example_clock_def slow_backoff_def)
  show ?thesis
    using slow_mode_auto_clear [where text_length = 10 and limiter = example_limiter
        and b = slow_backoff and clk = example_clock and t = 1000]
      within slow late
    by (simp add: example_clock_def slow_backoff_def)
qed

section \<open>Rate-limit retry\<close>

lemma fn_calls_simps [simp]:
  "fn_calls [] = 0"
  "fn_calls (es @ es') = fn_calls es + fn_calls es'"
  "fn_calls (FnCall l # es) = Suc (fn_calls es)"
  "fn_calls (CallbackCall e # es) = fn_calls es"
  "fn_calls (Sleep d # es) = fn_calls es"
  by (simp_all add: fn_calls_def)

lemma invoke_effects [simp]:
  "service_effects (snd (invoke fn s)) = service_effects s @ [FnCall (fst fn)]"
  by (simp add: invoke_def split: prod.splits)


lemma service_activate_slow_mode_effects [simp]:
  "service_effects (service_activate_slow_mode clk engine_id s) = service_effects s"
  by (simp add: service_activate_slow_mode_def)

text \<open>
  What the notification is: nothing without a callback, and with a callback \<open>cb\<close> the
  call \<open>cb engine_id s\<close>, recorded after the effects of \<open>s\<close>.
\<close>

lemma notify_rate_limit_none:
  "notify_rate_limit None engine_id s = (None, s)"
  by (simp add: notify_rate_limit_def)

lemma notify_rate_limit_some:
  "notify_rate_limit (Some cb) engine_id s
     = (fst (cb engine_id s),
        (snd (cb engine_id s))\<lparr>service_effects := service_effects s @ [CallbackCall engine_id]\<rparr>)"
  by (simp add: notify_rate_limit_def split: prod.splits)

lemma notify_rate_limit_effects:
  "service_effects (snd (notify_rate_limit callback engine_id s))
     = service_effects s @ (if callback = None then [] else [CallbackCall engine_id])"
  by (cases callback) (simp_all add: notify_rate_limit_none notify_rate_limit_some)

lemma backoff_sleep_effects:
  "\<exists>b. backoff_table (backoff_sleep engine_id s) engine_id = Some b
       \<and> fst (get_backoff_state engine_id (backoff_table s)) = b
       \<and> service_effects (backoff_sleep engine_id s)
           = service_effects s @ [Sleep (max (penalty_delay_sec b) (3 / 2))]"
  by (simp add: backoff_sleep_def get_backoff_state_def split: option.splits)


lemma before_retry_effects:
  "\<exists>b. backoff_table (before_retry clk callback engine_id s1) engine_id = Some b
       \<and> fst (get_backoff_state engine_id
             (backoff_table (snd (notify_rate_limit callback engine_id
                (service_activate_slow_mode clk engine_id s1))))) = b
       \<and> service_effects (before_retry clk callback engine_id s1)
           = service_effects s1 @ (if callback = None then [] else [CallbackCall engine_id])
               @ [Sleep (max (penalty_delay_sec b) (3 / 2))]"
  using backoff_sleep_effects [of engine_id
      "snd (notify_rate_limit callback engine_id (service_activate_slow_mode clk engine_id s1))"]
  by (simp add: before_retry_def notify_rate_limit_effects)

text \<open>The three ways through the wrapper.\<close>

lemma retry_not_limited:
  assumes "\<forall>status msg. fst (invoke fn s) \<noteq> Inl (LimitedModeError status msg)"
  shows "run_with_rate_limit_retry clk callback engine_id fn s = invoke fn s"
proof -
  obtain out s1 where first: "invoke fn s = (out, s1)"
    by (cases "invoke fn s")
  show ?thesis
  proof (cases out)
    case (Inr r)
    then show ?thesis
      by (simp add: run_with_rate_limit_retry_def first)
  next
    case (Inl exc)
    with assms first have "\<forall>status msg. exc \<noteq> LimitedModeError status msg"
      by simp
    then show ?thesis
      by (cases exc) (simp_all add: run_with_rate_limit_retry_def first Inl)
  qed
qed

lemma retry_limited:
  assumes "fst (invoke fn s) = Inl (LimitedModeError status msg)"
    and "fst (notify_rate_limit callback engine_id
           (service_activate_slow_mode clk engine_id (snd (invoke fn s)))) = None"
  shows "run_with_rate_limit_retry clk callback engine_id fn s
     = (case fst (invoke fn (before_retry clk callback engine_id (snd (invoke fn s)))) of
          Inr r \<Rightarrow> Inr r
        | Inl exc \<Rightarrow>
           (case exc of
              LimitedModeError status2 msg2 \<Rightarrow> Inl (TranslationError msg2 (Some exc))
            | _ \<Rightarrow> Inl exc),
        snd (invoke fn (before_retry clk callback engine_id (snd (invoke fn s)))))"
proof -
  obtain s1 where first: "invoke fn s = (Inl (LimitedModeError status msg), s1)"
    using assms(1) by (cases "invoke fn s") simp
  obtain s3 where notified: "notify_rate_limit callback engine_id
      (service_activate_slow_mode clk engine_id s1) = (None, s3)"
    using assms(2)
    by (cases "notify_rate_limit callback engine_id
        (service_activate_slow_mode clk engine_id s1)") (simp add: first)
  have s4: "before_retry clk callback engine_id s1 = backoff_sleep engine_id s3"
    by (simp add: before_retry_def notified)
  obtain out2 s5 where second: "invoke fn (backoff_sleep engine_id s3) = (out2, s5)"
    by (cases "invoke fn (backoff_sleep engine_id s3)")
  have run: "run_with_rate_limit_retry clk callback engine_id fn s
      = (case out2 of
           Inr r2 \<Rightarrow> (out2, s5)
         | Inl exc2 \<Rightarrow>
            (case exc2 of
               LimitedModeError status2 msg2 \<Rightarrow>
                 (Inl (TranslationError (exn_str exc2) (Some exc2)), s5)
             | _ \<Rightarrow> (out2, s5)))"
    by (simp add: run_with_rate_limit_retry_def first notified second Let_def)
  show ?thesis
  proof (cases out2)
    case (Inr r2)
    then show ?thesis by (simp add: run first s4 second)
  next
    case (Inl exc2)
    then show ?thesis by (cases exc2) (simp_all add: run first s4 second)
  qed
qed

text \<open>
  A callback that raises ends the wrapper: its exception leaves the \<^verbatim>\<open>except\<close> block
  after the activation of slow mode, and neither the sleep nor the retry is reached.
\<close>

lemma retry_callback_raises:
  assumes "fst (invoke fn s) = Inl (LimitedModeError status msg)"
    and "fst (notify_rate_limit callback engine_id
           (service_activate_slow_mode clk engine_id (snd (invoke fn s)))) = Some callback_exc"
  shows "run_with_rate_limit_retry clk callback engine_id fn s
     = (Inl callback_exc,
        snd (notify_rate_limit callback engine_id
               (service_activate_slow_mode clk engine_id (snd (invoke fn s)))))"
    and "service_effects (snd (run_with_rate_limit_retry clk callback engine_id fn s))
     = service_effects s @ [FnCall (fst fn), CallbackCall engine_id]"
proof -
  obtain s1 where first: "invoke fn s = (Inl (LimitedModeError status msg), s1)"
    using assms(1) by (cases "invoke fn s") simp
  obtain s3 where notified: "notify_rate_limit callback engine_id
      (service_activate_slow_mode clk engine_id s1) = (Some callback_exc, s3)"
    using assms(2)
    by (cases "notify_rate_limit callback engine_id
        (service_activate_slow_mode clk engine_id s1)") (simp add: first)
  show run: "run_with_rate_limit_retry clk callback engine_id fn s
     = (Inl callback_exc,
        snd (notify_rate_limit callback engine_id
               (service_activate_slow_mode clk engine_id (snd (invoke fn s)))))"
    by (simp add: run_with_rate_limit_retry_def first notified)
  have set: "callback \<noteq> None"
  proof
    assume "callback = None"
    with notified show False by (simp add: notify_rate_limit_none)
  qed
  have "service_effects s1 = service_effects s @ [FnCall (fst fn)]"
    using invoke_effects [of fn s] by (simp add: first)
  then show "service_effects (snd (run_with_rate_limit_retry clk callback engine_id fn s))
     = service_effects s @ [FnCall (fst fn), CallbackCall engine_id]"
    using set by (simp add: run first notify_rate_limit_effects)
qed

lemma retry_callback_raises_example:
  "fst (run_with_rate_limit_retry example_clock raising_callback ''deepl'' limited_once
         (example_service :: string service_state)) = Inl (OtherException ''no status bar'')
   \<and> service_effects (snd (run_with_rate_limit_retry example_clock raising_callback ''deepl''
         limited_once (example_service :: string service_state)))
       = [FnCall ''call'', CallbackCall ''deepl'']"
  by (simp add: run_with_rate_limit_retry_def invoke_def limited_once_def example_service_def
      raising_callback_def notify_rate_limit_def service_activate_slow_mode_def)



section \<open>Translating text blocks\<close>

lemma build_request_pairs_blocks:
  "length (fst (build_request_pairs isspace src dst cm context_limit j blocks)) = length blocks
   \<and> (\<forall>i < length blocks.
         fst (build_request_pairs isspace src dst cm context_limit j blocks) ! i
           = (if py_strip isspace (original_text (blocks ! i)) = []
              then (blocks ! i)\<lparr>translated_text := []\<rparr> else blocks ! i))"
proof (induction blocks arbitrary: j)
  case Nil
  show ?case by simp
next
  case (Cons block blocks)
  obtain blocks1 pairs where rest:
    "build_request_pairs isspace src dst cm context_limit (Suc j) blocks = (blocks1, pairs)"
    by (cases "build_request_pairs isspace src dst cm context_limit (Suc j) blocks")
  have ih: "length blocks1 = length blocks"
    "\<forall>i < length blocks. blocks1 ! i
       = (if py_strip isspace (original_text (blocks ! i)) = []
          then (blocks ! i)\<lparr>translated_text := []\<rparr> else blocks ! i)"
    using Cons.IH [of "Suc j"] by (simp_all add: rest)
  show ?case
  proof (intro conjI allI impI)
    show "length (fst (build_request_pairs isspace src dst cm context_limit j (block # blocks)))
        = length (block # blocks)"
      by (simp add: rest ih(1) Let_def)
  next
    fix i assume "i < length (block # blocks)"
    then show "fst (build_request_pairs isspace src dst cm context_limit j (block # blocks)) ! i
        = (if py_strip isspace (original_text ((block # blocks) ! i)) = []
           then ((block # blocks) ! i)\<lparr>translated_text := []\<rparr> else (block # blocks) ! i)"
      using ih(2) by (cases i) (simp_all add: rest Let_def)
  qed
qed

text \<open>
  Every request pair stands for a block that has text: its position, counted from \<open>j\<close>,
  is that of the block, and the request carries the text and the identity of the block.
\<close>

lemma build_request_pairs_requests:
  assumes "(k, r) \<in> set (snd (build_request_pairs isspace src dst cm context_limit j blocks))"
  shows "j \<le> k \<and> k - j < length blocks
       \<and> py_strip isspace (original_text (blocks ! (k - j))) \<noteq> []
       \<and> r = \<lparr>req_text = original_text (blocks ! (k - j)), src_lang = src, dst_lang = dst,
               req_context = get_recent_context context_limit cm,
               metadata = [(''block_id'', block_id (blocks ! (k - j))),
                           (''block_type'', block_type (blocks ! (k - j)))]\<rparr>"
  using assms
proof (induction blocks arbitrary: j)
  case Nil
  then show ?case by simp
next
  case (Cons block blocks)
  obtain blocks1 pairs where rest:
    "build_request_pairs isspace src dst cm context_limit (Suc j) blocks = (blocks1, pairs)"
    by (cases "build_request_pairs isspace src dst cm context_limit (Suc j) blocks")
  show ?case
  proof (cases "(k, r) \<in> set pairs")
    case True
    then have "Suc j \<le> k \<and> k - Suc j < length blocks
       \<and> py_strip isspace (original_text (blocks ! (k - Suc j))) \<noteq> []
       \<and> r = \<lparr>req_text = original_text (blocks ! (k - Suc j)), src_lang = src, dst_lang = dst,
               req_context = get_recent_context context_limit cm,
               metadata = [(''block_id'', block_id (blocks ! (k - Suc j))),
                           (''block_type'', block_type (blocks ! (k - Suc j)))]\<rparr>"
      using Cons.IH [of "Suc j"] by (simp add: rest)
    moreover from this have "k - j = Suc (k - Suc j)"
      by linarith
    ultimately show ?thesis
      by simp
  next
    case False
    with Cons.prems have "k = j \<and> py_strip isspace (original_text block) \<noteq> []
        \<and> r = \<lparr>req_text = original_text block, src_lang = src, dst_lang = dst,
               req_context = get_recent_context context_limit cm,
               metadata = [(''block_id'', block_id block),
                           (''block_type'', block_type block)]\<rparr>"
      by (auto simp: rest Let_def split: if_splits)
    then show ?thesis by simp
  qed
qed

lemma apply_results_blocks:
  "length (fst (apply_results fixup zs blocks cm)) = length blocks
   \<and> (\<forall>i. i \<notin> fst ` fst ` set zs \<longrightarrow> fst (apply_results fixup zs blocks cm) ! i = blocks ! i)"
proof (induction zs arbitrary: blocks cm)
  case Nil
  show ?case by simp
next
  case (Cons z zs)
  obtain j req res where z: "z = ((j, req), res)"
    by (metis surj_pair)
  show ?case
    unfolding z using Cons.IH by (auto simp: Let_def)
qed

text \<open>The effects of the wrapper and of the batch loop are invocations with known labels.\<close>

lemma run_with_rate_limit_retry_labels:
  "\<exists>es. service_effects (snd (run_with_rate_limit_retry clk callback engine_id fn s))
            = service_effects s @ es
        \<and> (\<forall>l. FnCall l \<in> set es \<longrightarrow> l = fst fn)"
proof (cases "\<exists>status msg. fst (invoke fn s) = Inl (LimitedModeError status msg)")
  case True
  then obtain status msg where limited: "fst (invoke fn s) = Inl (LimitedModeError status msg)"
    by blast
  show ?thesis
  proof (cases "fst (notify_rate_limit callback engine_id
      (service_activate_slow_mode clk engine_id (snd (invoke fn s))))")
    case None
    obtain b :: backoff_state
      where "service_effects (before_retry clk callback engine_id (snd (invoke fn s)))
        = service_effects (snd (invoke fn s))
            @ (if callback = None then [] else [CallbackCall engine_id])
            @ [Sleep (max (penalty_delay_sec b) (3 / 2))]"
      using before_retry_effects [of clk callback engine_id "snd (invoke fn s)"] by auto
    then show ?thesis
      by (simp add: retry_limited [OF limited None])
  next
    case (Some callback_exc)
    show ?thesis
      by (simp add: retry_callback_raises(2) [OF limited Some])
  qed
next
  case False
  then have "run_with_rate_limit_retry clk callback engine_id fn s = invoke fn s"
    by (intro retry_not_limited) simp
  then show ?thesis by simp
qed

lemma run_batches_labels:
  "\<exists>es. service_effects (snd (run_batches clk callback engine_id translate_batch batches s))
            = service_effects s @ es
        \<and> (\<forall>l. FnCall l \<in> set es \<longrightarrow> l \<in> set batches)"
proof (induction batches arbitrary: s)
  case Nil
  show ?case by simp
next
  case (Cons batch batches)
  obtain out s1 where first: "run_with_rate_limit_retry clk callback engine_id
      (batch, translate_batch batch) s = (out, s1)"
    by (cases "run_with_rate_limit_retry clk callback engine_id (batch, translate_batch batch) s")
  obtain es1 where es1: "service_effects s1 = service_effects s @ es1"
    "\<forall>l. FnCall l \<in> set es1 \<longrightarrow> l = batch"
    using run_with_rate_limit_retry_labels [of clk callback engine_id
        "(batch, translate_batch batch)" s]
    by (auto simp: first)
  show ?case
  proof (cases out)
    case (Inl exc)
    then show ?thesis using es1 by (auto simp: first)
  next
    case (Inr batch_results)
    obtain out2 s2 where second:
      "run_batches clk callback engine_id translate_batch batches s1 = (out2, s2)"
      by (cases "run_batches clk callback engine_id translate_batch batches s1")
    obtain es2 where es2: "service_effects s2 = service_effects s1 @ es2"
      "\<forall>l. FnCall l \<in> set es2 \<longrightarrow> l \<in> set batches"
      using Cons.IH [of s1] by (auto simp: second)
    have "snd (run_batches clk callback engine_id translate_batch (batch # batches) s) = s2"
      by (simp add: first Inr second split: sum.splits)
    then show ?thesis
      using es1 es2 by auto
  qed
qed

lemma concat_split_into_batches:
  "concat (split_into_batches caps requests) = requests"
proof (cases "supports_batch caps")
  case True
  then show ?thesis using split_into_batches_sound by blast
next
  case False
  then show ?thesis
    by (simp add: split_into_batches_def)
qed

text \<open>
  What every run of \<^verbatim>\<open>translate_blocks\<close> leaves: the blocks of the first loop with the
  results of some of the request pairs applied, and effects that are invocations on batches
  of the requests built.
\<close>

lemma translate_blocks_shape:
  fixes s :: "(request list) service_state" and reset_context :: bool
    and isspace :: "char \<Rightarrow> bool" and src dst :: string and caps :: capabilities
    and blocks :: "text_block list"
  defines "s0 \<equiv> (if reset_context then s\<lparr>ctx_manager := clear (ctx_manager s)\<rparr> else s)"
  defines "built \<equiv> build_request_pairs isspace src dst (ctx_manager s0)
      (if context_window caps = 0 then 10 else context_window caps) 0 blocks"
  shows "\<exists>zs cm es.
      fst (snd (translate_blocks isspace fixup clk callback translate_batch caps engine_id
             src dst reset_context blocks s)) = fst (apply_results fixup zs (fst built) cm)
    \<and> fst ` set zs \<subseteq> set (snd built)
    \<and> service_effects (snd (snd (translate_blocks isspace fixup clk callback translate_batch
             caps engine_id src dst reset_context blocks s))) = service_effects s @ es
    \<and> (\<forall>batch. FnCall batch \<in> set es \<longrightarrow> set batch \<subseteq> snd ` set (snd built))"
proof -
  let ?T = "translate_blocks isspace fixup clk callback translate_batch caps engine_id
      src dst reset_context blocks s"
  obtain blocks1 pairs where built: "built = (blocks1, pairs)"
    by (cases built)
  have same_effects: "service_effects s0 = service_effects s"
    by (simp add: s0_def)
  let ?batches = "split_into_batches caps (map snd pairs)"
  show ?thesis
  proof (cases "map snd pairs = []")
    case True
    then have "?T = (Inr blocks1, blocks1, s0)"
      using built unfolding translate_blocks_def built_def s0_def by (simp add: Let_def)
    then have "fst (snd ?T) = fst (apply_results fixup [] (fst built) (ctx_manager s0))
        \<and> fst ` set ([] :: ((nat \<times> request) \<times> result) list) \<subseteq> set (snd built)
        \<and> service_effects (snd (snd ?T)) = service_effects s @ []
        \<and> (\<forall>batch. FnCall batch \<in> set ([] :: (request list) service_event list)
              \<longrightarrow> set batch \<subseteq> snd ` set (snd built))"
      by (simp add: built same_effects)
    then show ?thesis by blast
  next
    case False
    obtain out s1 where ran:
      "run_batches clk callback engine_id translate_batch ?batches s0 = (out, s1)"
      by (cases "run_batches clk callback engine_id translate_batch ?batches s0")
    obtain es where es: "service_effects s1 = service_effects s @ es"
      "\<forall>l. FnCall l \<in> set es \<longrightarrow> l \<in> set ?batches"
      using run_batches_labels [of clk callback engine_id translate_batch ?batches s0]
      by (auto simp: ran same_effects)
    have sent: "\<forall>batch. FnCall batch \<in> set es \<longrightarrow> set batch \<subseteq> snd ` set (snd built)"
    proof (intro allI impI)
      fix batch assume "FnCall batch \<in> set es"
      then have "batch \<in> set ?batches" using es(2) by blast
      then have "set batch \<subseteq> set (concat ?batches)" by auto
      then show "set batch \<subseteq> snd ` set (snd built)"
        by (simp add: concat_split_into_batches built)
    qed
    have unfold: "?T = (case out of
          Inl exc \<Rightarrow> (Inl exc, blocks1, s1)
        | Inr all_results \<Rightarrow>
            if length all_results \<noteq> length pairs
            then (Inl (TranslationError
                         ''Translator returned unexpected number of results'' None),
                  blocks1, s1)
            else
              let (blocks2, cm) = apply_results fixup (zip pairs all_results)
                                    blocks1 (ctx_manager s1)
              in (Inr blocks2, blocks2, s1\<lparr>ctx_manager := cm\<rparr>))"
      using built False ran unfolding translate_blocks_def built_def s0_def
      by (simp add: Let_def)
    have unchanged: "fst (snd ?T) = fst (apply_results fixup [] (fst built) (ctx_manager s1))
        \<and> fst ` set ([] :: ((nat \<times> request) \<times> result) list) \<subseteq> set (snd built)
        \<and> service_effects (snd (snd ?T)) = service_effects s @ es"
      if "?T = (e, blocks1, s1)" for e
      using that es(1) by (simp add: built)
    show ?thesis
    proof (cases out)
      case (Inl exc)
      then have "?T = (Inl exc, blocks1, s1)" by (simp add: unfold)
      from unchanged [OF this] sent show ?thesis by blast
    next
      case (Inr all_results)
      show ?thesis
      proof (cases "length all_results \<noteq> length pairs")
        case True
        then have "?T = (Inl (TranslationError
            ''Translator returned unexpected number of results'' None), blocks1, s1)"
          by (simp add: unfold Inr)
        from unchanged [OF this] sent show ?thesis by blast
      next
        case False
        then have "fst (snd ?T) = fst (apply_results fixup (zip pairs all_results)
              (fst built) (ctx_manager s1))
            \<and> service_effects (snd (snd ?T)) = service_effects s @ es"
          using es(1) by (simp add: unfold Inr built split: prod.splits)
        moreover have "fst ` set (zip pairs all_results) \<subseteq> set (snd built)"
          by (auto simp: built dest: set_zip_leftD)
        ultimately show ?thesis using sent by blast
      qed
    qed
  qed
qed

text \<open>
  C8, as amended. A block whose \<^verbatim>\<open>original_text\<close> is empty or consists of whitespace is
  skipped: no request pair is built for its position, and every request of every batch
  handed to the engine was built for another block, one that has text, whose text and
  identity it carries. Whether the call returns or raises, it leaves the block with
  \<^verbatim>\<open>translated_text\<close> set to the empty string and every other field as it was.
\<close>

theorem blank_block_skipped:
  fixes s :: "(request list) service_state"
  assumes "i < length blocks"
    and "py_strip isspace (original_text (blocks ! i)) = []"
  shows "length (fst (snd (translate_blocks isspace fixup clk callback translate_batch caps
             engine_id src dst reset_context blocks s))) = length blocks
       \<and> fst (snd (translate_blocks isspace fixup clk callback translate_batch caps
             engine_id src dst reset_context blocks s)) ! i
           = (blocks ! i)\<lparr>translated_text := []\<rparr>
       \<and> i \<notin> fst ` set (snd (build_request_pairs isspace src dst cm context_limit 0 blocks))
       \<and> (\<exists>es. service_effects (snd (snd (translate_blocks isspace fixup clk callback
                   translate_batch caps engine_id src dst reset_context blocks s)))
                 = service_effects s @ es
              \<and> (\<forall>batch r. FnCall batch \<in> set es \<longrightarrow> r \<in> set batch \<longrightarrow>
                    (\<exists>k < length blocks. k \<noteq> i
                       \<and> py_strip isspace (original_text (blocks ! k)) \<noteq> []
                       \<and> req_text r = original_text (blocks ! k)
                       \<and> metadata r = [(''block_id'', block_id (blocks ! k)),
                                        (''block_type'', block_type (blocks ! k))])))"
proof -
  let ?T = "translate_blocks isspace fixup clk callback translate_batch caps engine_id
      src dst reset_context blocks s"
  let ?s0 = "if reset_context then s\<lparr>ctx_manager := clear (ctx_manager s)\<rparr> else s"
  let ?built = "build_request_pairs isspace src dst (ctx_manager ?s0)
      (if context_window caps = 0 then 10 else context_window caps) 0 blocks"
  have no_pair: "i \<notin> fst ` set (snd (build_request_pairs isspace src dst cm' limit' 0 blocks))"
    for cm' limit'
  proof
    assume "i \<in> fst ` set (snd (build_request_pairs isspace src dst cm' limit' 0 blocks))"
    then obtain r where
      "(i, r) \<in> set (snd (build_request_pairs isspace src dst cm' limit' 0 blocks))"
      by auto
    from build_request_pairs_requests [OF this] assms(2) show False by simp
  qed
  obtain zs cm1 es where shape:
    "fst (snd ?T) = fst (apply_results fixup zs (fst ?built) cm1)"
    "fst ` set zs \<subseteq> set (snd ?built)"
    "service_effects (snd (snd ?T)) = service_effects s @ es"
    "\<forall>batch. FnCall batch \<in> set es \<longrightarrow> set batch \<subseteq> snd ` set (snd ?built)"
    using translate_blocks_shape [where isspace = isspace and fixup = fixup and src = src
        and dst = dst and reset_context = reset_context and s = s and caps = caps
        and blocks = blocks and clk = clk and callback = callback
        and translate_batch = translate_batch and engine_id = engine_id]
    by blast
  have untouched: "i \<notin> fst ` fst ` set zs"
    using shape(2) no_pair [of "ctx_manager ?s0"
        "if context_window caps = 0 then 10 else context_window caps"]
    by auto
  have len: "length (fst (snd ?T)) = length blocks"
    using apply_results_blocks [of fixup zs "fst ?built" cm1] build_request_pairs_blocks
    by (simp add: shape(1))
  have "fst (snd ?T) ! i = fst ?built ! i"
    using apply_results_blocks [of fixup zs "fst ?built" cm1] untouched
    by (simp add: shape(1))
  also have "\<dots> = (blocks ! i)\<lparr>translated_text := []\<rparr>"
    using build_request_pairs_blocks [of isspace src dst "ctx_manager ?s0"
        "if context_window caps = 0 then 10 else context_window caps" 0 blocks] assms
    by simp
  finally have blank: "fst (snd ?T) ! i = (blocks ! i)\<lparr>translated_text := []\<rparr>" .
  have sent: "\<exists>k < length blocks. k \<noteq> i
        \<and> py_strip isspace (original_text (blocks ! k)) \<noteq> []
        \<and> req_text r = original_text (blocks ! k)
        \<and> metadata r = [(''block_id'', block_id (blocks ! k)),
                         (''block_type'', block_type (blocks ! k))]"
    if "FnCall batch \<in> set es" "r \<in> set batch" for batch r
  proof -
    from that shape(4) obtain k where k: "(k, r) \<in> set (snd ?built)"
      by fastforce
    from build_request_pairs_requests [OF k] have facts: "k < length blocks"
      "py_strip isspace (original_text (blocks ! k)) \<noteq> []"
      "req_text r = original_text (blocks ! k)"
      "metadata r = [(''block_id'', block_id (blocks ! k)),
                     (''block_type'', block_type (blocks ! k))]"
      by simp_all
    moreover have "k \<noteq> i" using facts(2) assms(2) by auto
    ultimately show ?thesis by blast
  qed
  show ?thesis
    using len blank no_pair [of cm context_limit] shape(3) sent by blast
qed

theorem blank_block_skipped_witness:
  "(0::nat) < length [example_block ''  '' ''old'', example_block ''abc'' '''']
   \<and> py_strip is_blank_char
        (original_text ([example_block ''  '' ''old'', example_block ''abc'' ''''] ! 0)) = []
   \<and> length (fst (snd (translate_blocks is_blank_char id example_clock None echo_batch
         (example_caps 2 (Some 10)) ''deepl'' ''ja'' ''en'' False
         [example_block ''  '' ''old'', example_block ''abc'' ''''] example_service))) = 2
   \<and> fst (snd (translate_blocks is_blank_char id example_clock None echo_batch
         (example_caps 2 (Some 10)) ''deepl'' ''ja'' ''en'' False
         [example_block ''  '' ''old'', example_block ''abc'' ''''] example_service)) ! 0
       = example_block ''  '' ''''"
proof -
  have position: "(0::nat) < length [example_block ''  '' ''old'', example_block ''abc'' '''']"
    by simp
  have blank: "py_strip is_blank_char
      (original_text ([example_block ''  '' ''old'', example_block ''abc'' ''''] ! 0)) = []"
    by (simp add: py_strip_def is_blank_char_def example_block_def)
  show ?thesis
    using blank_block_skipped [OF position blank, where fixup = id and clk = example_clock
        and callback = None and translate_batch = echo_batch
        and caps = "example_caps 2 (Some 10)" and engine_id = "''deepl''" and src = "''ja''"
        and dst = "''en''" and reset_context = False and s = example_service]
      position blank
    by (simp add: example_block_def)
qed

text \<open>
  C8 as stated fails on the translation of a skipped block: a block without text that
  carries the earlier translation \<^verbatim>\<open>old\<close> comes back with an empty
  \<^verbatim>\<open>translated_text\<close>.
\<close>

theorem blank_block_translation_counterexample:
  "py_strip is_blank_char (original_text (example_block ''  '' ''old'')) = []
   \<and> translated_text (example_block ''  '' ''old'') = ''old''
   \<and> map translated_text (fst (snd (translate_blocks is_blank_char id example_clock None
         echo_batch (example_caps 2 (Some 10)) ''deepl'' ''ja'' ''en'' False
         [example_block ''  '' ''old''] example_service))) = ['''']
   \<and> translated_text (hd (fst (snd (translate_blocks is_blank_char id example_clock None
         echo_batch (example_caps 2 (Some 10)) ''deepl'' ''ja'' ''en'' False
         [example_block ''  '' ''old''] example_service))))
       \<noteq> translated_text (example_block ''  '' ''old'')"
  by (simp add: translate_blocks_def py_strip_def is_blank_char_def example_block_def Let_def)

end
